theory Spec2Isabelle
  imports Main "HOL-Library.List_Lexorder" "HOL-Library.Char_ord"
begin

section \<open>Shared data model\<close>

text \<open>
  Modelled from the spec: ManifestID, DeploymentID and Deployment are declared elsewhere
  in the repository. Section 3 of the specification gives a ManifestID as a
  source-code location plus an optional flavor, a DeploymentID as a ManifestID plus a
  cluster name, and a Deployment as a record of version, instance count and cluster name.
\<close>

type_synonym ManifestID = "string \<times> string"

type_synonym DeploymentID = "ManifestID \<times> string"

record Deployment =
  SourceLocation :: string
  Flavor :: string
  ClusterName :: string
  DeployedVersion :: string
  Instances :: int

definition Deployment_ManifestID :: "Deployment \<Rightarrow> ManifestID" where
  "Deployment_ManifestID d = (SourceLocation d, Deployment.Flavor d)"

definition Deployment_ID :: "Deployment \<Rightarrow> DeploymentID" where
  "Deployment_ID d = (Deployment_ManifestID d, ClusterName d)"

section \<open>Resolution poller: \<^verbatim>\<open>lib/single_deployment_poller.go\<close>\<close>

datatype ResolveState =
    ResolveNotPolled
  | ResolveNotStarted
  | ResolveNotVersion
  | ResolvePendingRequest
  | ResolveErredHTTP
  | ResolveHTTPFailed
  | ResolveErredRez
  | ResolveTasksStarting
  | ResolveInProgress
  | ResolveComplete
  | ResolveFailed

text \<open>
  Modelled from the spec: the enumeration with its marker ResolveTERMINALS is declared
  elsewhere in the repository. Section 4.4 of the specification names Complete, Failed and
  HTTPFailed as the terminal states; \<open>terminal s\<close> stands for
  \<open>s >= ResolveTERMINALS\<close>.
\<close>

fun terminal :: "ResolveState \<Rightarrow> bool" where
  "terminal ResolveComplete = True"
| "terminal ResolveFailed = True"
| "terminal ResolveHTTPFailed = True"
| "terminal _ = False"

text \<open>
  Modelled from the spec: the change classification of a resolution-log entry is one of
  stable, coming, or anything else (section 3).
\<close>

datatype ResolutionType = StableDiff | ComingDiff | OtherDiff

record DiffResolution =
  ManifestID :: ManifestID
  Desc :: ResolutionType
  Error :: "string option"

record ResolveStatus =
  Started :: string
  Log :: "DiffResolution list"
  Intended :: "Deployment list"

record statusData =
  Deployments :: "Deployment list"
  Completed :: "ResolveStatus option"
  InProgress :: "ResolveStatus option"

text \<open>
  The type ResolveFilter is declared elsewhere; the poller only calls its two predicates,
  which are taken as they come.
\<close>

record ResolveFilter =
  FilterDeployment :: "Deployment \<Rightarrow> bool"
  FilterManifestID :: "ManifestID \<Rightarrow> bool"

text \<open>
  The counter is a Go \<open>int\<close>. It is only ever incremented by one, compared with 10
  and reset to zero, and the polling loop stops at the first terminal state, so it stays
  far below any machine bound (see \<open>poll_httpErrorCount_bounded\<close>); it is modelled
  as an unbounded integer.
\<close>

record SingleDeploymentPoller =
  URL :: string
  locationFilter :: ResolveFilter
  idFilter :: ResolveFilter
  httpErrorCount :: int
  status :: ResolveState

datatype pollError =
    HTTPError string
  | TooManyHTTPErrors string
  | ResolveError string

record pollResultSDP =
  url :: string
  stat :: ResolveState
  err :: "pollError option"
  resolveID :: string

definition finished :: "SingleDeploymentPoller \<Rightarrow> bool" where
  "finished sdp = terminal (status sdp)"

definition updateStatus :: "SingleDeploymentPoller \<Rightarrow> pollResultSDP \<Rightarrow> SingleDeploymentPoller" where
  "updateStatus sdp update = sdp\<lparr>status := stat update\<rparr>"

definition result ::
  "SingleDeploymentPoller \<Rightarrow> ResolveState \<Rightarrow> statusData \<Rightarrow> pollError option \<Rightarrow> pollResultSDP" where
  "result sdp rs data e =
     \<lparr>url = URL sdp, stat = rs, err = e,
      resolveID = (case InProgress data of None \<Rightarrow> ''<none in progress>'' | Some ip \<Rightarrow> Started ip)\<rparr>"

text \<open>The first log entry whose ManifestID passes the filter; nil for a nil status.\<close>

definition diffResolutionForSDP :: "ResolveStatus option \<Rightarrow> ResolveFilter \<Rightarrow> DiffResolution option" where
  "diffResolutionForSDP rstat rf =
     (case rstat of
        None \<Rightarrow> None
      | Some rs \<Rightarrow> find (\<lambda>rez. FilterManifestID rf (DiffResolution.ManifestID rez)) (Log rs))"

text \<open>
  The loop of serverIntentSDP, with \<open>dep\<close> as accumulator: a second deployment that
  passes the filter makes the function return nil at once.
\<close>

fun serverIntentLoop :: "ResolveFilter \<Rightarrow> Deployment list \<Rightarrow> Deployment option \<Rightarrow> Deployment option" where
  "serverIntentLoop rf [] dep = dep"
| "serverIntentLoop rf (d # ds) dep =
     (if FilterDeployment rf d
      then (case dep of Some _ \<Rightarrow> None | None \<Rightarrow> serverIntentLoop rf ds (Some d))
      else serverIntentLoop rf ds dep)"

definition serverIntentSDP :: "ResolveStatus option \<Rightarrow> ResolveFilter \<Rightarrow> Deployment option" where
  "serverIntentSDP rstat rf =
     (case rstat of None \<Rightarrow> None | Some rs \<Rightarrow> serverIntentLoop rf (Intended rs) None)"

definition stateFeatures ::
  "SingleDeploymentPoller \<Rightarrow> string \<Rightarrow> ResolveStatus option \<Rightarrow> Deployment option \<times> DiffResolution option" where
  "stateFeatures sdp kind rezState =
     (let current = diffResolutionForSDP rezState (locationFilter sdp);
          srvIntent = serverIntentSDP rezState (locationFilter sdp)
      in (srvIntent, current))"

text \<open>
  computeState. The predicate IsTransientResolveError is defined elsewhere and is the
  first parameter. The second component of the result is the returned error.
\<close>

definition computeState ::
  "(string \<Rightarrow> bool) \<Rightarrow> SingleDeploymentPoller \<Rightarrow> Deployment option \<times> DiffResolution option
     \<Rightarrow> ResolveState \<times> pollError option" where
  "computeState IsTransientResolveError sdp features =
     (case fst features of
        None \<Rightarrow> (ResolveNotStarted, None)
      | Some srvIntent \<Rightarrow>
          if \<not> FilterDeployment (idFilter sdp) srvIntent then (ResolveNotVersion, None)
          else (case snd features of
                  None \<Rightarrow> (ResolvePendingRequest, None)
                | Some current \<Rightarrow>
                    (case Error current of
                       Some e \<Rightarrow>
                         if IsTransientResolveError e then (ResolveErredRez, Some (ResolveError e))
                         else (ResolveFailed, Some (ResolveError e))
                     | None \<Rightarrow>
                         if Desc current = StableDiff then (ResolveComplete, None)
                         else if Desc current = ComingDiff then (ResolveTasksStarting, None)
                         else (ResolveInProgress, None))))"

text \<open>The backwards-compatibility step of pollOnce: an empty Intended is filled in.\<close>

definition fillIntended :: "Deployment list \<Rightarrow> ResolveStatus option \<Rightarrow> ResolveStatus option" where
  "fillIntended deps rstat =
     (case rstat of
        None \<Rightarrow> None
      | Some rs \<Rightarrow> if length (Intended rs) = 0 then Some (rs\<lparr>Intended := deps\<rparr>) else Some rs)"

definition patchIntended :: "statusData \<Rightarrow> statusData" where
  "patchIntended data =
     data\<lparr>Completed := fillIntended (Deployments data) (Completed data),
          InProgress := fillIntended (Deployments data) (InProgress data)\<rparr>"

definition emptyStatusData :: statusData where
  "emptyStatusData = \<lparr>Deployments = [], Completed = None, InProgress = None\<rparr>"

text \<open>
  pollOnce. The outcome of the HTTP retrieve is its input: \<open>Inl e\<close> for a transport
  error, \<open>Inr data\<close> for the decoded status. The poller is returned with its counter
  updated.
\<close>

definition pollOnce ::
  "(string \<Rightarrow> bool) \<Rightarrow> SingleDeploymentPoller \<Rightarrow> string + statusData
     \<Rightarrow> SingleDeploymentPoller \<times> pollResultSDP" where
  "pollOnce IsTransientResolveError sdp retrieved =
     (case retrieved of
        Inl e \<Rightarrow>
          (let sdp1 = sdp\<lparr>httpErrorCount := httpErrorCount sdp + 1\<rparr>
           in if httpErrorCount sdp1 > 10
              then (sdp1, result sdp1 ResolveHTTPFailed emptyStatusData (Some (TooManyHTTPErrors e)))
              else (sdp1, result sdp1 ResolveErredHTTP emptyStatusData (Some (HTTPError e))))
      | Inr data0 \<Rightarrow>
          (let sdp1 = sdp\<lparr>httpErrorCount := 0\<rparr>;
               data = patchIntended data0;
               (currentState, e) =
                 computeState IsTransientResolveError sdp1 (stateFeatures sdp1 ''in-progress'' (InProgress data))
           in if currentState = ResolveNotStarted \<or> currentState = ResolveNotVersion
                 \<or> currentState = ResolvePendingRequest
              then (let (state, e2) =
                          computeState IsTransientResolveError sdp1 (stateFeatures sdp1 ''completed'' (Completed data))
                    in (sdp1, result sdp1 state data e2))
              else (sdp1, result sdp1 currentState data e)))"

text \<open>
  The polling loop of \<open>poll\<close> and \<open>start\<close>, over the outcomes of the successive
  retrieves: every result updates the status, and the loop ends at the first terminal
  status. The list of results is returned next to the poller.
\<close>

fun pollLoop ::
  "(string \<Rightarrow> bool) \<Rightarrow> SingleDeploymentPoller \<Rightarrow> (string + statusData) list
     \<Rightarrow> SingleDeploymentPoller \<times> pollResultSDP list" where
  "pollLoop tr sdp [] = (sdp, [])"
| "pollLoop tr sdp (r # rs) =
     (let (sdp1, res) = pollOnce tr sdp r;
          sdp2 = updateStatus sdp1 res
      in if finished sdp2 then (sdp2, [res])
         else (let (sdp3, ress) = pollLoop tr sdp2 rs in (sdp3, res # ress)))"

section \<open>Deployment bundle and diff concentrator: \<^verbatim>\<open>lib/diff_concentrator.go\<close>\<close>

text \<open>
  A Go panic unwinds the goroutine. It is modelled as the error value \<open>Panic\<close>, which
  every caller hands on instead of continuing; the run ends there and returns the panic
  alone. The other constructors stand for the messages of the errors the code builds.
\<close>

datatype error =
    ConsumedBundle
  | TwoClustersNamed string string
  | NoClusterName
  | CollisionPrior string Deployment Deployment
  | CollisionPost string Deployment Deployment
  | PutbackFailed string
  | NotOnlyOne
  | BlankManifestPair
  | Panic string

fun isPanic :: "error \<Rightarrow> bool" where
  "isPanic (Panic _) = True"
| "isPanic _ = False"

fun isCollision :: "error \<Rightarrow> bool" where
  "isCollision (CollisionPrior _ _ _) = True"
| "isCollision (CollisionPost _ _ _) = True"
| "isCollision _ = False"

text \<open>
  Modelled from the spec: the Manifest type and its methods ID and Equal are declared
  elsewhere. Section 3 and the glossary describe a manifest as the description of one
  application across all clusters (owners, per-cluster version and instance count),
  identified by its ManifestID and compared structurally.
\<close>

type_synonym DeploySpec = "string \<times> int"

record Manifest =
  Source :: string
  Flavor :: string
  Owners :: "string list"
  Deployments :: "string \<rightharpoonup> DeploySpec"

type_synonym Manifests = "Manifest list"

definition Manifest_ID :: "Manifest \<Rightarrow> ManifestID" where
  "Manifest_ID m = (Source m, Manifest.Flavor m)"

definition Manifest_Equal :: "Manifest \<Rightarrow> Manifest \<Rightarrow> bool" where
  "Manifest_Equal m n = (m = n)"

record ManifestPair =
  name :: ManifestID
  Prior :: "Manifest option"
  Post :: "Manifest option"

record Deployable =
  Deployment :: "Deployment option"

record DeployablePair =
  Prior :: "Deployable option"
  Post :: "Deployable option"

text \<open>
  Modelled from the spec: Deployments is a generated map type, declared elsewhere in the
  repository. By section 3 it is a set of deployments keyed by DeploymentID; the code
  uses Add (which reports whether the key was free, and stores nothing otherwise), Get and
  Snapshot. It is kept as the list of stored deployments in insertion order.
\<close>

type_synonym Deployments = "Deployment list"

definition NewDeployments :: Deployments where
  "NewDeployments = []"

definition Deployments_Get :: "Deployments \<Rightarrow> DeploymentID \<Rightarrow> Deployment option" where
  "Deployments_Get ds k = find (\<lambda>d. Deployment_ID d = k) ds"

definition Deployments_Add :: "Deployments \<Rightarrow> Deployment \<Rightarrow> Deployments \<times> bool" where
  "Deployments_Add ds d =
     (case Deployments_Get ds (Deployment_ID d) of
        Some _ \<Rightarrow> (ds, False)
      | None \<Rightarrow> (ds @ [d], True))"

definition Snapshot :: "Deployments \<Rightarrow> Deployment list" where
  "Snapshot ds = ds"

record deploymentBundle =
  consumed :: bool
  before :: Deployments
  after :: Deployments

definition newDepBundle :: deploymentBundle where
  "newDepBundle = \<lparr>consumed = False, before = NewDeployments, after = NewDeployments\<rparr>"

text \<open>Lines 103 to 116 of add: the cluster the pair names, or the invariant error.\<close>

definition pairCluster :: "Deployment option \<Rightarrow> Deployment option \<Rightarrow> error + string" where
  "pairCluster prior post =
     (let cluster0 = (case prior of None \<Rightarrow> [] | Some p \<Rightarrow> ClusterName p)
      in case (case post of
                 None \<Rightarrow> Inr cluster0
               | Some q \<Rightarrow>
                   (case prior of
                      None \<Rightarrow> Inr (ClusterName q)
                    | Some p \<Rightarrow>
                        if cluster0 \<noteq> ClusterName q
                        then Inl (TwoClustersNamed (ClusterName p) (ClusterName q))
                        else Inr cluster0)) of
           Inl e \<Rightarrow> Inl e
         | Inr cluster \<Rightarrow> if cluster = [] then Inl NoClusterName else Inr cluster)"

text \<open>Lines 118 to 129 of add: the prior side goes into the before set.\<close>

definition addPrior :: "deploymentBundle \<Rightarrow> string \<Rightarrow> Deployment option \<Rightarrow> deploymentBundle \<times> error option" where
  "addPrior db cluster prior =
     (case prior of
        None \<Rightarrow> (db, None)
      | Some p \<Rightarrow>
          (let (ds, accepted) = Deployments_Add (before db) p
           in if \<not> accepted
              then (case Deployments_Get (before db) (Deployment_ID p) of
                      None \<Rightarrow> (db, Some (Panic ''Collided deployment not present!''))
                    | Some existing \<Rightarrow> (db, Some (CollisionPrior cluster existing p)))
              else (db\<lparr>before := ds\<rparr>, None)))"

text \<open>Lines 131 to 142 of add: the post side goes into the after set.\<close>

definition addPost :: "deploymentBundle \<Rightarrow> string \<Rightarrow> Deployment option \<Rightarrow> deploymentBundle \<times> error option" where
  "addPost db cluster post =
     (case post of
        None \<Rightarrow> (db, None)
      | Some q \<Rightarrow>
          (let (ds, accepted) = Deployments_Add (after db) q
           in if \<not> accepted
              then (case Deployments_Get (after db) (Deployment_ID q) of
                      None \<Rightarrow> (db, Some (Panic ''Collided deployment not present!''))
                    | Some existing \<Rightarrow> (db, Some (CollisionPost cluster existing q)))
              else (db\<lparr>after := ds\<rparr>, None)))"

text \<open>
  add. The bundle is returned as the call leaves it, next to the error (\<open>None\<close> for
  nil). The logging at the head of the function has no effect on the result.
  \<open>priorOf\<close> and \<open>postOf\<close> are lines 79 to 87: the deployment behind each side.
\<close>

definition priorOf :: "DeployablePair \<Rightarrow> Deployment option" where
  "priorOf pair = (case DeployablePair.Prior pair of None \<Rightarrow> None | Some p \<Rightarrow> Deployment p)"

definition postOf :: "DeployablePair \<Rightarrow> Deployment option" where
  "postOf pair = (case DeployablePair.Post pair of None \<Rightarrow> None | Some q \<Rightarrow> Deployment q)"

definition add :: "deploymentBundle \<Rightarrow> DeployablePair \<Rightarrow> deploymentBundle \<times> error option" where
  "add db pair =
     (let prior = priorOf pair;
          post = postOf pair
      in if consumed db then (db, Some ConsumedBundle)
         else (case pairCluster prior post of
                 Inl e \<Rightarrow> (db, Some e)
               | Inr cluster \<Rightarrow>
                   (case addPrior db cluster prior of
                      (db1, Some e) \<Rightarrow> (db1, Some e)
                    | (db1, None) \<Rightarrow> addPost db1 cluster post)))"

definition clusters :: "deploymentBundle \<Rightarrow> string list" where
  "clusters db = sort (remdups (map ClusterName (Snapshot (before db) @ Snapshot (after db))))"

record Defs =
  Clusters :: "string list"

text \<open>
  Modelled from the spec: Only is a method of Manifests, declared elsewhere in the
  repository. By section 4.1 the fold fails when a side yields more than one manifest, and
  yields at most one manifest otherwise (nil for none).
\<close>

definition Only :: "Manifests \<Rightarrow> error + Manifest option" where
  "Only ms = (case ms of [] \<Rightarrow> Inr None | [m] \<Rightarrow> Inr (Some m) | _ \<Rightarrow> Inl NotOnlyOne)"

text \<open>
  manifestPair. The method PutbackManifests is declared elsewhere in the repository and is
  the parameter \<open>pb\<close>. With neither a prior nor a post manifest, line 197 calls ID through a
  nil pointer and panics.
\<close>

type_synonym putback = "Defs \<Rightarrow> Manifests \<Rightarrow> Deployments \<Rightarrow> error + Manifests"

definition manifestPair ::
  "putback \<Rightarrow> Defs \<Rightarrow> Manifests \<Rightarrow> deploymentBundle \<Rightarrow> deploymentBundle \<times> (error + ManifestPair)" where
  "manifestPair pb defs baseMs db0 =
     (let db = db0\<lparr>consumed := True\<rparr>
      in case pb defs baseMs (before db) of
           Inl e \<Rightarrow> (db, Inl e)
         | Inr ms \<Rightarrow>
             (case Only ms of
                Inl e \<Rightarrow> (db, Inl e)
              | Inr p \<Rightarrow>
                  (case pb defs baseMs (after db) of
                     Inl e \<Rightarrow> (db, Inl e)
                   | Inr ms2 \<Rightarrow>
                       (case Only ms2 of
                          Inl e \<Rightarrow> (db, Inl e)
                        | Inr q \<Rightarrow>
                            (case q of
                               None \<Rightarrow>
                                 (case p of
                                    None \<Rightarrow> (db, Inl (Panic ''nil pointer dereference''))
                                  | Some pm \<Rightarrow>
                                      (db, Inr \<lparr>name = Manifest_ID pm, Prior = p, Post = None\<rparr>))
                             | Some qm \<Rightarrow>
                                 (db, Inr \<lparr>name = Manifest_ID qm, Prior = p, Post = q\<rparr>))))))"

text \<open>
  Modelled from the spec: PutbackManifests, for the claims that depend on what it
  returns. By sections 3 and 4.1 it projects a set of per-cluster deployments into
  manifest form, one manifest for each application identity among them, holding the
  per-cluster version and instance count, with the fields a deployment does not carry
  (here the owners) taken from the base manifest of the same identity.
\<close>

definition putbackOne :: "Manifests \<Rightarrow> ManifestID \<Rightarrow> Deployment list \<Rightarrow> Manifest" where
  "putbackOne baseMs mid ds =
     \<lparr>Source = fst mid, Flavor = snd mid,
      Owners = (case find (\<lambda>m. Manifest_ID m = mid) baseMs of None \<Rightarrow> [] | Some m \<Rightarrow> Owners m),
      Deployments = map_of (map (\<lambda>d. (ClusterName d, (DeployedVersion d, Instances d))) ds)\<rparr>"

definition PutbackManifests :: putback where
  "PutbackManifests defs baseMs ds =
     Inr (map (\<lambda>mid. putbackOne baseMs mid (filter (\<lambda>d. Deployment_ManifestID d = mid) ds))
              (remdups (map Deployment_ManifestID ds)))"

text \<open>
  The channels of the concentrator are kept as the lists of the values sent on them so
  far, oldest first.
\<close>

record DiffConcentrator =
  Defs :: Defs
  baseManifests :: Manifests
  Errors :: "error list"
  Created :: "Manifest list"
  Deleted :: "Manifest list"
  Retained :: "Manifest list"
  Modified :: "ManifestPair list"

definition newDiffConcentrator :: "Defs \<Rightarrow> Manifests \<Rightarrow> DiffConcentrator" where
  "newDiffConcentrator defs baseMs =
     \<lparr>Defs = defs, baseManifests = baseMs, Errors = [], Created = [], Deleted = [],
      Retained = [], Modified = []\<rparr>"

definition dispatch :: "DiffConcentrator \<Rightarrow> ManifestPair \<Rightarrow> DiffConcentrator \<times> error option" where
  "dispatch dc mp =
     (case ManifestPair.Prior mp of
        None \<Rightarrow>
          (case ManifestPair.Post mp of
             None \<Rightarrow> (dc, Some BlankManifestPair)
           | Some q \<Rightarrow> (dc\<lparr>Created := Created dc @ [q]\<rparr>, None))
      | Some p \<Rightarrow>
          (case ManifestPair.Post mp of
             None \<Rightarrow> (dc\<lparr>Deleted := Deleted dc @ [p]\<rparr>, None)
           | Some q \<Rightarrow>
               if Manifest_Equal p q then (dc\<lparr>Retained := Retained dc @ [q]\<rparr>, None)
               else (dc\<lparr>Modified := Modified dc @ [mp]\<rparr>, None)))"

text \<open>resolve. \<open>Inl\<close> is a panic; every other error goes to the Errors channel.\<close>

definition resolve ::
  "putback \<Rightarrow> DiffConcentrator \<Rightarrow> ManifestID \<Rightarrow> deploymentBundle
     \<Rightarrow> error + (DiffConcentrator \<times> deploymentBundle)" where
  "resolve pb dc mid bundle =
     (case manifestPair pb (Defs dc) (baseManifests dc) bundle of
        (b, Inl e) \<Rightarrow> if isPanic e then Inl e else Inr (dc\<lparr>Errors := Errors dc @ [e]\<rparr>, b)
      | (b, Inr mp) \<Rightarrow>
          (case dispatch dc mp of
             (dc1, Some e) \<Rightarrow> Inr (dc1\<lparr>Errors := Errors dc1 @ [e]\<rparr>, b)
           | (dc1, None) \<Rightarrow> Inr (dc1, b)))"

text \<open>
  The state of concentrate: the local map \<open>collect\<close> and the concentrator with its
  channels.
\<close>

type_synonym collect = "ManifestID \<rightharpoonup> deploymentBundle"

definition addPair ::
  "putback \<Rightarrow> collect \<times> DiffConcentrator \<Rightarrow> ManifestID \<Rightarrow> DeployablePair
     \<Rightarrow> error + (collect \<times> DiffConcentrator)" where
  "addPair pb st mid dp =
     (let (coll, con) = st;
          bundle = (case coll mid of None \<Rightarrow> newDepBundle | Some b \<Rightarrow> b)
      in case add bundle dp of
           (b1, Some e) \<Rightarrow>
             if isPanic e then Inl e
             else Inr (coll(mid \<mapsto> b1), con\<lparr>Errors := Errors con @ [e]\<rparr>)
         | (b1, None) \<Rightarrow>
             if length (clusters b1) = length (Clusters (Defs con))
             then (case resolve pb con mid b1 of
                     Inl e \<Rightarrow> Inl e
                   | Inr (con1, b2) \<Rightarrow> Inr (coll(mid \<mapsto> b2), con1))
             else Inr (coll(mid \<mapsto> b1), con))"

text \<open>
  The four input channels. An event is a pair received on one of them; the select loop
  sees the events of all four in some merged order, which is the list given to
  \<open>consume\<close>. The end of the list is the point where all four channels are closed.
\<close>

datatype chan = Start | Stop | Stable | Update

type_synonym event = "chan \<times> DeployablePair"

definition Deployable_ManifestID :: "Deployable option \<Rightarrow> error + ManifestID" where
  "Deployable_ManifestID d =
     (case d of
        None \<Rightarrow> Inl (Panic ''nil pointer dereference'')
      | Some dp \<Rightarrow>
          (case Deployment dp of
             None \<Rightarrow> Inl (Panic ''nil pointer dereference'')
           | Some x \<Rightarrow> Inr (Deployment_ManifestID x)))"

fun eventKey :: "event \<Rightarrow> error + ManifestID" where
  "eventKey (Start, c) = Deployable_ManifestID (DeployablePair.Post c)"
| "eventKey (Stop, d) = Deployable_ManifestID (DeployablePair.Prior d)"
| "eventKey (Stable, r) = Deployable_ManifestID (DeployablePair.Post r)"
| "eventKey (Update, m) = Deployable_ManifestID (DeployablePair.Prior m)"

fun consume ::
  "putback \<Rightarrow> collect \<times> DiffConcentrator \<Rightarrow> event list \<Rightarrow> error + (collect \<times> DiffConcentrator)" where
  "consume pb st [] = Inr st"
| "consume pb st (ev # evs) =
     (case eventKey ev of
        Inl e \<Rightarrow> Inl e
      | Inr mid \<Rightarrow>
          (case addPair pb st mid (snd ev) of
             Inl e \<Rightarrow> Inl e
           | Inr st1 \<Rightarrow> consume pb st1 evs))"

text \<open>
  The final loop over \<open>collect\<close>. Go visits the keys of a map in an unspecified order;
  the order is the list \<open>mids\<close>. A key without a bundle, which the loop of the code
  never meets, is passed over.
\<close>

fun flush ::
  "putback \<Rightarrow> collect \<times> DiffConcentrator \<Rightarrow> ManifestID list \<Rightarrow> error + (collect \<times> DiffConcentrator)" where
  "flush pb st [] = Inr st"
| "flush pb st (mid # mids) =
     (case fst st mid of
        None \<Rightarrow> flush pb st mids
      | Some bundle \<Rightarrow>
          if \<not> consumed bundle
          then (case resolve pb (snd st) mid bundle of
                  Inl e \<Rightarrow> Inl e
                | Inr (con1, b1) \<Rightarrow> flush pb ((fst st)(mid \<mapsto> b1), con1) mids)
          else flush pb st mids)"

definition concentrate ::
  "putback \<Rightarrow> DiffConcentrator \<Rightarrow> event list \<Rightarrow> ManifestID list \<Rightarrow> error + (collect \<times> DiffConcentrator)" where
  "concentrate pb con evs mids =
     (case consume pb (Map.empty, con) evs of
        Inl e \<Rightarrow> Inl e
      | Inr st \<Rightarrow> flush pb st mids)"

text \<open>The number of values sent for a manifest identity on the four output channels.\<close>

definition emitted :: "DiffConcentrator \<Rightarrow> ManifestID \<Rightarrow> nat" where
  "emitted dc mid =
     length (filter (\<lambda>m. Manifest_ID m = mid) (Created dc))
     + length (filter (\<lambda>m. Manifest_ID m = mid) (Deleted dc))
     + length (filter (\<lambda>m. Manifest_ID m = mid) (Retained dc))
     + length (filter (\<lambda>p. name p = mid) (Modified dc))"

section \<open>Rectifier: \<^verbatim>\<open>sous/rectifier.go\<close>\<close>

text \<open>
  The rectifier belongs to an older package than the concentrator and has a Deployment
  type of its own, called SousDeployment here.

  Modelled from the spec: SourceVersion, Resources and their Equal methods are declared
  elsewhere. By section 3 deployments are compared structurally, field by field;
  Resources is a map from resource names to values.
\<close>

record SourceVersion =
  RepoURL :: string
  Version :: string
  RepoOffset :: string

type_synonym Resources = "string \<rightharpoonup> string"

definition SourceVersion_Equal :: "SourceVersion \<Rightarrow> SourceVersion \<Rightarrow> bool" where
  "SourceVersion_Equal a b = (a = b)"

definition Resources_Equal :: "Resources \<Rightarrow> Resources \<Rightarrow> bool" where
  "Resources_Equal a b = (a = b)"

record SousDeployment =
  Cluster :: string
  RequestId :: string
  SourceVersion :: SourceVersion
  NumInstances :: int
  Resources :: Resources

record DeploymentPair =
  prior :: "SousDeployment option"
  post :: "SousDeployment option"

text \<open>
  The calls a client can receive. Deploy, PostRequest and Scale are the methods of the
  interface RectificationClient in rectifier.go; DeleteRequest is a method of
  DummyRectificationClient only and is not in that interface.
\<close>

datatype call =
    Deploy string string string string Resources
  | PostRequest string string int
  | Scale string string int string
  | DeleteRequest string string string

fun isDeploy :: "call \<Rightarrow> bool" where
  "isDeploy (Deploy _ _ _ _ _) = True"
| "isDeploy _ = False"

fun isPostRequest :: "call \<Rightarrow> bool" where
  "isPostRequest (PostRequest _ _ _) = True"
| "isPostRequest _ = False"

fun isScale :: "call \<Rightarrow> bool" where
  "isScale (Scale _ _ _ _) = True"
| "isScale _ = False"

fun isDeleteRequest :: "call \<Rightarrow> bool" where
  "isDeleteRequest (DeleteRequest _ _ _) = True"
| "isDeleteRequest _ = False"

text \<open>
  The client: its method ImageName, and the calls it has received so far, oldest first.
  The rectifier drops the error every call returns.
\<close>

record RectificationClient =
  ImageName :: "SousDeployment \<Rightarrow> string"
  calls :: "call list"

definition send :: "RectificationClient \<Rightarrow> call \<Rightarrow> RectificationClient" where
  "send sing c = sing\<lparr>calls := calls sing @ [c]\<rparr>"

definition computeImageName :: "RectificationClient \<Rightarrow> SousDeployment \<Rightarrow> string" where
  "computeImageName sing d = ImageName sing d"

text \<open>
  computeRequestId. CanonicalName().String() of a SourceVersion is defined elsewhere and
  is the parameter \<open>cn\<close>.
\<close>

definition computeRequestId :: "(SourceVersion \<Rightarrow> string) \<Rightarrow> SousDeployment \<Rightarrow> string" where
  "computeRequestId cn d =
     (if length (RequestId d) > 0 then RequestId d else cn (SousDeployment.SourceVersion d))"

text \<open>changesReq and changesDep, on the two sides of the pair.\<close>

definition changesReq :: "SousDeployment \<Rightarrow> SousDeployment \<Rightarrow> bool" where
  "changesReq pr po = (NumInstances pr \<noteq> NumInstances po)"

definition changesDep :: "SousDeployment \<Rightarrow> SousDeployment \<Rightarrow> bool" where
  "changesDep pr po =
     (\<not> (SourceVersion_Equal (SousDeployment.SourceVersion pr) (SousDeployment.SourceVersion po)
         \<and> Resources_Equal (Resources pr) (Resources pr)))"

text \<open>
  The three workers. Each takes the events of its channel in order; an event comes with
  the identifier that newDepID draws for it (a fresh random UUID in the code).
\<close>

fun rectifyCreates ::
  "(SourceVersion \<Rightarrow> string) \<Rightarrow> (string \<times> SousDeployment) list \<Rightarrow> RectificationClient \<Rightarrow> RectificationClient" where
  "rectifyCreates cn [] sing = sing"
| "rectifyCreates cn ((depID, d) # cc) sing =
     (let reqID = computeRequestId cn d;
          sing1 = send sing (PostRequest (Cluster d) reqID (NumInstances d));
          sing2 = send sing1 (Deploy (Cluster d) depID reqID (computeImageName sing1 d) (Resources d))
      in rectifyCreates cn cc sing2)"

fun rectifyDeletes ::
  "(SourceVersion \<Rightarrow> string) \<Rightarrow> SousDeployment list \<Rightarrow> RectificationClient \<Rightarrow> RectificationClient" where
  "rectifyDeletes cn [] sing = sing"
| "rectifyDeletes cn (d # dc) sing =
     rectifyDeletes cn dc
       (send sing (Scale (Cluster d) (computeRequestId cn d) 0 ''scaling deleted manifest to zero''))"

text \<open>
  The body of the loop of rectifyModifys for one pair. Both sides of the pair are
  pointers; changesReq reads through both before any call is made, so a nil side panics
  with the client untouched.
\<close>

definition rectifyModify ::
  "(SourceVersion \<Rightarrow> string) \<Rightarrow> string \<Rightarrow> DeploymentPair \<Rightarrow> RectificationClient
     \<Rightarrow> error + RectificationClient" where
  "rectifyModify cn depID pair sing =
     (case prior pair of
        None \<Rightarrow> Inl (Panic ''nil pointer dereference'')
      | Some pr \<Rightarrow>
          (case post pair of
             None \<Rightarrow> Inl (Panic ''nil pointer dereference'')
           | Some po \<Rightarrow>
               (let sing1 =
                      (if changesReq pr po
                       then send sing (Scale (Cluster po) (computeRequestId cn po)
                                         (NumInstances po) ''rectified scaling'')
                       else sing);
                    sing2 =
                      (if changesDep pr po
                       then send sing1 (Deploy (Cluster po) depID (computeRequestId cn pr)
                                          (computeImageName sing1 po) (Resources po))
                       else sing1)
                in Inr sing2)))"

text \<open>
  The worker stops at the first panic; the client is returned as the calls made until
  then have left it.
\<close>

fun rectifyModifys ::
  "(SourceVersion \<Rightarrow> string) \<Rightarrow> (string \<times> DeploymentPair) list \<Rightarrow> RectificationClient
     \<Rightarrow> RectificationClient \<times> error option" where
  "rectifyModifys cn [] sing = (sing, None)"
| "rectifyModifys cn ((depID, pair) # mc) sing =
     (case rectifyModify cn depID pair sing of
        Inl e \<Rightarrow> (sing, Some e)
      | Inr sing1 \<Rightarrow> rectifyModifys cn mc sing1)"

section \<open>Predicates used in the statements\<close>

text \<open>
  A bundle is non-empty when it holds a deployment on either side; \<open>idsOK mid b\<close>
  says that every deployment of \<open>b\<close> belongs to the application \<open>mid\<close>;
  \<open>bundleOf mid b\<close> is both together.
\<close>

definition nonempty :: "deploymentBundle \<Rightarrow> bool" where
  "nonempty b = (before b \<noteq> [] \<or> after b \<noteq> [])"

definition idsOK :: "ManifestID \<Rightarrow> deploymentBundle \<Rightarrow> bool" where
  "idsOK mid b = list_all (\<lambda>d. Deployment_ManifestID d = mid) (before b @ after b)"

definition bundleOf :: "ManifestID \<Rightarrow> deploymentBundle \<Rightarrow> bool" where
  "bundleOf mid b =
     ((before b \<noteq> [] \<or> after b \<noteq> [])
      \<and> (\<forall>d\<in>set (before b) \<union> set (after b). Deployment_ManifestID d = mid))"

text \<open>
  A complete bundle: at least one cluster is configured, the bundle's clusters are
  exactly the configured ones, and each side holds at most one deployment per cluster.
  A bundle collects the deployments of one application; all that is asked here is that
  the before side is of one identity \<open>midB\<close> and the after side of one identity
  \<open>midA\<close>, which add does not force to be equal.
\<close>

definition completeBundle :: "Defs \<Rightarrow> ManifestID \<Rightarrow> ManifestID \<Rightarrow> deploymentBundle \<Rightarrow> bool" where
  "completeBundle defs midB midA b =
     (Clusters defs \<noteq> [] \<and> set (clusters b) = set (Clusters defs)
      \<and> distinct (map ClusterName (before b)) \<and> distinct (map ClusterName (after b))
      \<and> list_all (\<lambda>d. Deployment_ManifestID d = midB) (before b)
      \<and> list_all (\<lambda>d. Deployment_ManifestID d = midA) (after b))"

text \<open>
  The manifest that the spec-modelled PutbackManifests followed by Only yields for a side
  whose deployments are all of the identity \<open>mid\<close>.
\<close>

definition sideManifest :: "Manifests \<Rightarrow> ManifestID \<Rightarrow> Deployments \<Rightarrow> Manifest option" where
  "sideManifest baseMs mid ds = (if ds = [] then None else Some (putbackOne baseMs mid ds))"

text \<open>
  A valid event: the side that its channel reads the ManifestID from is present, both
  sides, where present, belong to that application and carry a cluster name, and two
  present sides name the same cluster.
\<close>

definition sideOK :: "ManifestID \<Rightarrow> Deployment option \<Rightarrow> bool" where
  "sideOK mid side =
     (case side of None \<Rightarrow> True | Some d \<Rightarrow> Deployment_ManifestID d = mid \<and> ClusterName d \<noteq> [])"

definition validPair :: "ManifestID \<Rightarrow> DeployablePair \<Rightarrow> bool" where
  "validPair mid dp =
     (sideOK mid (priorOf dp) \<and> sideOK mid (postOf dp)
      \<and> (case priorOf dp of
            None \<Rightarrow> postOf dp \<noteq> None
          | Some p \<Rightarrow> (case postOf dp of None \<Rightarrow> True | Some q \<Rightarrow> ClusterName p = ClusterName q)))"

definition validEvent :: "event \<Rightarrow> bool" where
  "validEvent ev = (case eventKey ev of Inl _ \<Rightarrow> False | Inr mid \<Rightarrow> validPair mid (snd ev))"

text \<open>
  The invariant of the loop of concentrate: an application without a bundle has no
  output; an application with a bundle has a non-empty bundle of its own deployments, and
  one output if the bundle is consumed, none otherwise. While events are consumed, a
  bundle is consumed exactly when its clusters are as many as the configured ones.
\<close>

definition concInv :: "collect \<times> DiffConcentrator \<Rightarrow> bool" where
  "concInv st =
     (\<forall>mid. (fst st mid = None \<longrightarrow> emitted (snd st) mid = 0)
          \<and> (\<forall>b. fst st mid = Some b \<longrightarrow>
                 bundleOf mid b \<and> emitted (snd st) mid = (if consumed b then 1 else 0)))"

definition countInv :: "collect \<times> DiffConcentrator \<Rightarrow> bool" where
  "countInv st =
     (\<forall>mid b. fst st mid = Some b \<longrightarrow>
        (consumed b \<longleftrightarrow> length (clusters b) = length (Clusters (Defs (snd st)))))"

section \<open>Example values\<close>

text \<open>
  Concrete inputs for the closed theorems below. The rectifier values are those of the
  package's own tests (TestModifyScale, TestModifyImage, TestDeletes).
\<close>

definition watchedLocation :: "Deployment \<Rightarrow> bool" where
  "watchedLocation d = (SourceLocation d = ''github.com/example/app'')"

definition watchedManifestID :: "ManifestID \<Rightarrow> bool" where
  "watchedManifestID m = (fst m = ''github.com/example/app'')"

definition watchedVersion :: "Deployment \<Rightarrow> bool" where
  "watchedVersion d = (SourceLocation d = ''github.com/example/app'' \<and> DeployedVersion d = ''1.0.1'')"

definition transientExample :: "string \<Rightarrow> bool" where
  "transientExample e = (e = ''temporarily unavailable'')"

definition examplePoller :: SingleDeploymentPoller where
  "examplePoller =
     \<lparr>URL = ''http://cluster-a.example'',
      locationFilter = \<lparr>FilterDeployment = watchedLocation, FilterManifestID = watchedManifestID\<rparr>,
      idFilter = \<lparr>FilterDeployment = watchedVersion, FilterManifestID = watchedManifestID\<rparr>,
      httpErrorCount = 0, status = ResolveNotPolled\<rparr>"

definition appOnA :: Deployment where
  "appOnA = \<lparr>SourceLocation = ''github.com/example/app'', Deployment.Flavor = [], ClusterName = ''cluster-a'',
             DeployedVersion = ''1.0.0'', Instances = 3\<rparr>"

definition appOnA_next :: Deployment where
  "appOnA_next = appOnA\<lparr>DeployedVersion := ''1.0.1''\<rparr>"

definition rezExample :: "ResolutionType \<Rightarrow> string option \<Rightarrow> DiffResolution" where
  "rezExample desc e = \<lparr>ManifestID = (''github.com/example/app'', []), Desc = desc, Error = e\<rparr>"

definition completedExample :: statusData where
  "completedExample =
     \<lparr>statusData.Deployments = [appOnA_next],
      Completed = Some \<lparr>Started = ''t0'', Log = [rezExample StableDiff None], Intended = []\<rparr>,
      InProgress = None\<rparr>"

definition manifestV1 :: Manifest where
  "manifestV1 = \<lparr>Source = ''github.com/example/app'', Flavor = [], Owners = [''team''],
                  Deployments = [''cluster-a'' \<mapsto> (''1.0.0'', 3)]\<rparr>"

definition manifestV2 :: Manifest where
  "manifestV2 = \<lparr>Source = ''github.com/example/app'', Flavor = [], Owners = [''team''],
                  Deployments = [''cluster-a'' \<mapsto> (''1.0.1'', 3)]\<rparr>"

definition exampleDefs :: Defs where
  "exampleDefs = \<lparr>Clusters = [''cluster-a'']\<rparr>"

definition emptyConcentrator :: DiffConcentrator where
  "emptyConcentrator = newDiffConcentrator exampleDefs []"

definition deletedOnA :: DeployablePair where
  "deletedOnA = \<lparr>Prior = Some \<lparr>Deployment = Some appOnA_next\<rparr>, Post = None\<rparr>"

definition bundleWithA :: deploymentBundle where
  "bundleWithA = \<lparr>consumed = False, before = [appOnA], after = []\<rparr>"

definition canaryOnA :: Deployment where
  "canaryOnA = appOnA_next\<lparr>Deployment.Flavor := ''canary''\<rparr>"

definition bundleBothSides :: deploymentBundle where
  "bundleBothSides = \<lparr>consumed = False, before = [appOnA], after = [canaryOnA]\<rparr>"

definition consumedBundleWithA :: deploymentBundle where
  "consumedBundleWithA = bundleWithA\<lparr>consumed := True\<rparr>"

definition exampleCanonicalName :: "SourceVersion \<Rightarrow> string" where
  "exampleCanonicalName sv = RepoURL sv"

definition exampleImageName :: "SousDeployment \<Rightarrow> string" where
  "exampleImageName d =
     RepoURL (SousDeployment.SourceVersion d) @ '' '' @ Version (SousDeployment.SourceVersion d)"

definition exampleClient :: RectificationClient where
  "exampleClient = \<lparr>ImageName = exampleImageName, calls = []\<rparr>"

definition smallDeployment :: SousDeployment where
  "smallDeployment =
     \<lparr>Cluster = ''cluster'', RequestId = [],
      SourceVersion = \<lparr>RepoURL = ''reqid'', Version = ''1.2.3'', RepoOffset = []\<rparr>,
      NumInstances = 1, Resources = [''cpus'' \<mapsto> ''0.1'']\<rparr>"

definition biggerDeployment :: SousDeployment where
  "biggerDeployment = smallDeployment\<lparr>Resources := [''cpus'' \<mapsto> ''0.5'']\<rparr>"

definition resourcesPair :: DeploymentPair where
  "resourcesPair = \<lparr>prior = Some smallDeployment, post = Some biggerDeployment\<rparr>"

definition deletedDeployment :: SousDeployment where
  "deletedDeployment =
     \<lparr>Cluster = ''cluster'', RequestId = [],
      SourceVersion = \<lparr>RepoURL = ''reqid'', Version = ''0.0.0'', RepoOffset = []\<rparr>,
      NumInstances = 12, Resources = Map.empty\<rparr>"

definition appID :: ManifestID where
  "appID = (''github.com/example/app'', [])"

definition createdOnA :: DeployablePair where
  "createdOnA = \<lparr>Prior = None, Post = Some \<lparr>Deployment = Some appOnA\<rparr>\<rparr>"

definition namelessCreated :: DeployablePair where
  "namelessCreated = \<lparr>Prior = None, Post = Some \<lparr>Deployment = Some (appOnA\<lparr>ClusterName := []\<rparr>)\<rparr>\<rparr>"

definition twoClusters :: Defs where
  "twoClusters = \<lparr>Clusters = [''cluster-a'', ''cluster-b'']\<rparr>"

section \<open>Properties of the resolution poller\<close>

lemma computeState_ignores_counter:
  "computeState tr (sdp\<lparr>httpErrorCount := c\<rparr>) f = computeState tr sdp f"
  by (simp add: computeState_def split: option.splits)

lemma stateFeatures_ignores_counter:
  "stateFeatures (sdp\<lparr>httpErrorCount := c\<rparr>) k r = stateFeatures sdp k r"
  by (simp add: stateFeatures_def)

text \<open>
  Claim C2. computeState maps the pair of intended deployment and resolution-log entry to
  a state in a fixed order of cases: no intended deployment gives NotStarted; an intended
  deployment that fails the id filter gives NotVersion; no log entry gives
  PendingRequest; an entry with a transient error gives ErredRez, with any other error
  Failed, which is terminal; an entry without error gives Complete when its diff is
  stable, TasksStarting when it is coming, and InProgress otherwise.
\<close>

theorem computeState_case_order:
  "fst (computeState tr sdp (None, current)) = ResolveNotStarted
   \<and> (\<not> FilterDeployment (idFilter sdp) d \<longrightarrow>
        fst (computeState tr sdp (Some d, current)) = ResolveNotVersion)
   \<and> (FilterDeployment (idFilter sdp) d \<longrightarrow>
        fst (computeState tr sdp (Some d, None)) = ResolvePendingRequest)
   \<and> (FilterDeployment (idFilter sdp) d \<and> Error c = Some e \<and> tr e \<longrightarrow>
        fst (computeState tr sdp (Some d, Some c)) = ResolveErredRez)
   \<and> (FilterDeployment (idFilter sdp) d \<and> Error c = Some e \<and> \<not> tr e \<longrightarrow>
        fst (computeState tr sdp (Some d, Some c)) = ResolveFailed \<and> terminal ResolveFailed)
   \<and> (FilterDeployment (idFilter sdp) d \<and> Error c = None \<and> Desc c = StableDiff \<longrightarrow>
        fst (computeState tr sdp (Some d, Some c)) = ResolveComplete)
   \<and> (FilterDeployment (idFilter sdp) d \<and> Error c = None \<and> Desc c = ComingDiff \<longrightarrow>
        fst (computeState tr sdp (Some d, Some c)) = ResolveTasksStarting)
   \<and> (FilterDeployment (idFilter sdp) d \<and> Error c = None \<and> Desc c \<noteq> StableDiff
        \<and> Desc c \<noteq> ComingDiff \<longrightarrow>
        fst (computeState tr sdp (Some d, Some c)) = ResolveInProgress)"
  by (simp add: computeState_def)

theorem computeState_case_order_witness:
  "fst (computeState transientExample examplePoller (None, None)) = ResolveNotStarted
   \<and> fst (computeState transientExample examplePoller (Some appOnA, None)) = ResolveNotVersion
   \<and> fst (computeState transientExample examplePoller (Some appOnA_next, None)) = ResolvePendingRequest
   \<and> fst (computeState transientExample examplePoller
        (Some appOnA_next, Some (rezExample OtherDiff (Some ''temporarily unavailable'')))) = ResolveErredRez
   \<and> fst (computeState transientExample examplePoller
        (Some appOnA_next, Some (rezExample OtherDiff (Some ''image not found'')))) = ResolveFailed
   \<and> fst (computeState transientExample examplePoller
        (Some appOnA_next, Some (rezExample StableDiff None))) = ResolveComplete
   \<and> fst (computeState transientExample examplePoller
        (Some appOnA_next, Some (rezExample ComingDiff None))) = ResolveTasksStarting
   \<and> fst (computeState transientExample examplePoller
        (Some appOnA_next, Some (rezExample OtherDiff None))) = ResolveInProgress"
  using
    computeState_case_order[where tr = transientExample and sdp = examplePoller and current = None
      and d = appOnA and c = "rezExample OtherDiff None" and e = "''x''"]
    computeState_case_order[where tr = transientExample and sdp = examplePoller and current = None
      and d = appOnA_next and c = "rezExample OtherDiff (Some ''temporarily unavailable'')"
      and e = "''temporarily unavailable''"]
    computeState_case_order[where tr = transientExample and sdp = examplePoller and current = None
      and d = appOnA_next and c = "rezExample OtherDiff (Some ''image not found'')"
      and e = "''image not found''"]
    computeState_case_order[where tr = transientExample and sdp = examplePoller and current = None
      and d = appOnA_next and c = "rezExample StableDiff None" and e = "''x''"]
    computeState_case_order[where tr = transientExample and sdp = examplePoller and current = None
      and d = appOnA_next and c = "rezExample ComingDiff None" and e = "''x''"]
    computeState_case_order[where tr = transientExample and sdp = examplePoller and current = None
      and d = appOnA_next and c = "rezExample OtherDiff None" and e = "''x''"]
  by (simp add: examplePoller_def watchedVersion_def appOnA_def appOnA_next_def rezExample_def
      transientExample_def)

lemma pollOnce_Inl_count: "httpErrorCount (fst (pollOnce tr sdp (Inl e))) = httpErrorCount sdp + 1"
  by (simp add: pollOnce_def Let_def)

lemma pollOnce_Inl_stat:
  "stat (snd (pollOnce tr sdp (Inl e))) =
     (if httpErrorCount sdp + 1 > 10 then ResolveHTTPFailed else ResolveErredHTTP)"
  by (simp add: pollOnce_def Let_def result_def)

lemma pollOnce_Inr_count: "httpErrorCount (fst (pollOnce tr sdp (Inr d))) = 0"
  by (simp add: pollOnce_def Let_def split: prod.splits)

text \<open>
  A run of transport failures, from any counter value between 0 and 10: the polls report
  ErredHTTP until the counter passes 10, and the loop ends there with HTTPFailed.
\<close>

lemma pollLoop_failures:
  "0 \<le> httpErrorCount sdp \<Longrightarrow> httpErrorCount sdp \<le> 10 \<Longrightarrow>
   map stat (snd (pollLoop tr sdp (map Inl es))) =
     replicate (min (length es) (nat (10 - httpErrorCount sdp))) ResolveErredHTTP
     @ (if length es > nat (10 - httpErrorCount sdp) then [ResolveHTTPFailed] else [])"
proof (induction es arbitrary: sdp)
  case Nil
  then show ?case by simp
next
  case (Cons e es)
  let ?p = "pollOnce tr sdp (Inl e)"
  let ?sdp2 = "updateStatus (fst ?p) (snd ?p)"
  have cnt: "httpErrorCount ?sdp2 = httpErrorCount sdp + 1"
    by (simp add: updateStatus_def pollOnce_Inl_count)
  have st: "status ?sdp2 = (if httpErrorCount sdp + 1 > 10 then ResolveHTTPFailed else ResolveErredHTTP)"
    by (simp add: updateStatus_def pollOnce_Inl_stat)
  show ?case
  proof (cases "httpErrorCount sdp = 10")
    case True
    then have "finished ?sdp2" using st by (simp add: finished_def)
    then show ?thesis using True pollOnce_Inl_stat[of tr sdp e]
      by (simp add: split_def Let_def)
  next
    case False
    then have lt: "httpErrorCount sdp + 1 \<le> 10" using Cons.prems by simp
    then have nf: "\<not> finished ?sdp2" using st by (simp add: finished_def)
    have ih: "map stat (snd (pollLoop tr ?sdp2 (map Inl es))) =
       replicate (min (length es) (nat (10 - httpErrorCount ?sdp2))) ResolveErredHTTP
       @ (if length es > nat (10 - httpErrorCount ?sdp2) then [ResolveHTTPFailed] else [])"
      by (rule Cons.IH) (use cnt lt Cons.prems in simp_all)
    have n: "nat (10 - httpErrorCount sdp) = Suc (nat (10 - httpErrorCount ?sdp2))"
      using cnt lt Cons.prems by simp
    show ?thesis using nf ih pollOnce_Inl_stat[of tr sdp e] lt
      by (simp add: split_def Let_def n)
  qed
qed

text \<open>
  Whatever the retrieves return, the counter of a poller that starts between 0 and 10
  never leaves the range 0 to 11 while the loop runs.
\<close>

lemma poll_httpErrorCount_bounded:
  "0 \<le> httpErrorCount sdp \<Longrightarrow> httpErrorCount sdp \<le> 10 \<Longrightarrow>
   0 \<le> httpErrorCount (fst (pollLoop tr sdp rs)) \<and> httpErrorCount (fst (pollLoop tr sdp rs)) \<le> 11"
proof (induction rs arbitrary: sdp)
  case Nil
  then show ?case by simp
next
  case (Cons r rs)
  let ?p = "pollOnce tr sdp r"
  let ?sdp2 = "updateStatus (fst ?p) (snd ?p)"
  show ?case
  proof (cases r)
    case (Inl e)
    have cnt: "httpErrorCount ?sdp2 = httpErrorCount sdp + 1"
      by (simp add: updateStatus_def Inl pollOnce_Inl_count)
    have st: "status ?sdp2 = (if httpErrorCount sdp + 1 > 10 then ResolveHTTPFailed else ResolveErredHTTP)"
      by (simp add: updateStatus_def Inl pollOnce_Inl_stat)
    show ?thesis
    proof (cases "finished ?sdp2")
      case True
      then show ?thesis using cnt Cons.prems by (simp add: split_def Let_def)
    next
      case False
      then have "httpErrorCount sdp + 1 \<le> 10" using st by (auto simp: finished_def split: if_splits)
      then have "0 \<le> httpErrorCount (fst (pollLoop tr ?sdp2 rs))
                 \<and> httpErrorCount (fst (pollLoop tr ?sdp2 rs)) \<le> 11"
        using Cons.IH[of ?sdp2] cnt Cons.prems by simp
      then show ?thesis using False by (simp add: split_def Let_def)
    qed
  next
    case (Inr d)
    have cnt: "httpErrorCount ?sdp2 = 0"
      by (simp add: updateStatus_def Inr pollOnce_Inr_count)
    show ?thesis
    proof (cases "finished ?sdp2")
      case True
      then show ?thesis using cnt by (simp add: split_def Let_def)
    next
      case False
      have "0 \<le> httpErrorCount (fst (pollLoop tr ?sdp2 rs))
            \<and> httpErrorCount (fst (pollLoop tr ?sdp2 rs)) \<le> 11"
        using Cons.IH[of ?sdp2] cnt by simp
      then show ?thesis using False by (simp add: split_def Let_def)
    qed
  qed
qed

text \<open>
  Claim C4. A poll whose retrieve fails adds one to the counter of consecutive errors; it
  returns the terminal state HTTPFailed when the counter is then above 10 and the
  non-terminal state ErredHTTP when it is 10 or less; a poll whose retrieve succeeds sets
  the counter to zero. So from a counter at zero, the first ten failures in a row each
  report ErredHTTP and the eleventh reports HTTPFailed, which ends the loop.
\<close>

theorem pollOnce_http_error_counter:
  "httpErrorCount (fst (pollOnce tr sdp (Inl e))) = httpErrorCount sdp + 1
   \<and> (httpErrorCount (fst (pollOnce tr sdp (Inl e))) > 10 \<longrightarrow>
        stat (snd (pollOnce tr sdp (Inl e))) = ResolveHTTPFailed)
   \<and> (httpErrorCount (fst (pollOnce tr sdp (Inl e))) \<le> 10 \<longrightarrow>
        stat (snd (pollOnce tr sdp (Inl e))) = ResolveErredHTTP)
   \<and> terminal ResolveHTTPFailed \<and> \<not> terminal ResolveErredHTTP
   \<and> httpErrorCount (fst (pollOnce tr sdp (Inr data))) = 0
   \<and> (httpErrorCount sdp = 0 \<longrightarrow>
        map stat (snd (pollLoop tr sdp (map Inl es))) =
          (if length es \<le> 10 then replicate (length es) ResolveErredHTTP
           else replicate 10 ResolveErredHTTP @ [ResolveHTTPFailed]))"
proof -
  have "httpErrorCount sdp = 0 \<longrightarrow>
        map stat (snd (pollLoop tr sdp (map Inl es))) =
          (if length es \<le> 10 then replicate (length es) ResolveErredHTTP
           else replicate 10 ResolveErredHTTP @ [ResolveHTTPFailed])"
    using pollLoop_failures[of sdp tr es] by (auto simp: min_def)
  then show ?thesis
    by (simp add: pollOnce_Inl_count pollOnce_Inl_stat pollOnce_Inr_count)
qed

theorem pollOnce_http_error_counter_witness:
  "stat (snd (pollOnce transientExample examplePoller (Inl ''timeout''))) = ResolveErredHTTP
   \<and> stat (snd (pollOnce transientExample (examplePoller\<lparr>httpErrorCount := 10\<rparr>) (Inl ''timeout'')))
       = ResolveHTTPFailed
   \<and> httpErrorCount (fst (pollOnce transientExample (examplePoller\<lparr>httpErrorCount := 10\<rparr>)
       (Inr completedExample))) = 0
   \<and> map stat (snd (pollLoop transientExample examplePoller (map Inl (replicate 10 ''timeout''))))
       = replicate 10 ResolveErredHTTP
   \<and> map stat (snd (pollLoop transientExample examplePoller (map Inl (replicate 11 ''timeout''))))
       = replicate 10 ResolveErredHTTP @ [ResolveHTTPFailed]"
  using
    pollOnce_http_error_counter[where tr = transientExample and sdp = examplePoller
      and e = "''timeout''" and data = completedExample and es = "replicate 10 ''timeout''"]
    pollOnce_http_error_counter[where tr = transientExample and sdp = examplePoller
      and e = "''timeout''" and data = completedExample and es = "replicate 11 ''timeout''"]
    pollOnce_http_error_counter[where tr = transientExample
      and sdp = "examplePoller\<lparr>httpErrorCount := 10\<rparr>"
      and e = "''timeout''" and data = completedExample and es = "[]"]
  by (simp add: examplePoller_def)

text \<open>
  Claim C10. After a successful retrieve, pollOnce computes a state from the in-progress
  resolution status. When that state is NotStarted, NotVersion or PendingRequest it is
  dropped, and the state computed from the completed resolution status is returned; any
  other state computed from the in-progress status is returned as it is.
\<close>

theorem pollOnce_falls_back_to_completed:
  "stat (snd (pollOnce tr sdp (Inr data0))) =
     (let data = patchIntended data0;
          currentState = fst (computeState tr sdp (stateFeatures sdp ''in-progress'' (InProgress data)))
      in if currentState = ResolveNotStarted \<or> currentState = ResolveNotVersion
            \<or> currentState = ResolvePendingRequest
         then fst (computeState tr sdp (stateFeatures sdp ''completed'' (Completed data)))
         else currentState)"
  by (simp add: pollOnce_def Let_def computeState_ignores_counter stateFeatures_ignores_counter
      result_def split: prod.splits)

theorem pollOnce_falls_back_to_completed_witness:
  "fst (computeState transientExample examplePoller
          (stateFeatures examplePoller ''in-progress'' (InProgress (patchIntended completedExample))))
     = ResolveNotStarted
   \<and> stat (snd (pollOnce transientExample examplePoller (Inr completedExample))) = ResolveComplete"
  using pollOnce_falls_back_to_completed[of transientExample examplePoller completedExample]
  by (simp add: completedExample_def patchIntended_def fillIntended_def stateFeatures_def
      diffResolutionForSDP_def serverIntentSDP_def computeState_def examplePoller_def
      watchedLocation_def watchedManifestID_def watchedVersion_def appOnA_next_def appOnA_def
      rezExample_def Let_def)

section \<open>Properties of the deployment bundle and of dispatch\<close>

lemma manifestV1_neq_V2: "manifestV1 \<noteq> manifestV2"
  by (auto simp: manifestV1_def manifestV2_def dest: map_upd_eqD1)

text \<open>
  Claim C5. dispatch sends a manifest pair on exactly one channel and leaves the others as
  they are: with no prior, the post manifest goes to Created; with no post, the prior
  manifest goes to Deleted; with a prior equal to the post, the post goes to Retained;
  otherwise the pair goes to Modified. A pair with neither side is answered with an error
  and nothing is sent.
\<close>

theorem dispatch_one_channel:
  "(ManifestPair.Prior mp = None \<and> ManifestPair.Post mp = Some q \<longrightarrow>
      dispatch dc mp = (dc\<lparr>Created := Created dc @ [q]\<rparr>, None))
   \<and> (ManifestPair.Prior mp = Some p \<and> ManifestPair.Post mp = None \<longrightarrow>
      dispatch dc mp = (dc\<lparr>Deleted := Deleted dc @ [p]\<rparr>, None))
   \<and> (ManifestPair.Prior mp = Some p \<and> ManifestPair.Post mp = Some q \<and> p = q \<longrightarrow>
      dispatch dc mp = (dc\<lparr>Retained := Retained dc @ [q]\<rparr>, None))
   \<and> (ManifestPair.Prior mp = Some p \<and> ManifestPair.Post mp = Some q \<and> p \<noteq> q \<longrightarrow>
      dispatch dc mp = (dc\<lparr>Modified := Modified dc @ [mp]\<rparr>, None))
   \<and> (ManifestPair.Prior mp = None \<and> ManifestPair.Post mp = None \<longrightarrow>
      dispatch dc mp = (dc, Some BlankManifestPair))"
  by (simp add: dispatch_def Manifest_Equal_def)

theorem dispatch_one_channel_witness:
  "dispatch emptyConcentrator \<lparr>name = Manifest_ID manifestV2, ManifestPair.Prior = None, ManifestPair.Post = Some manifestV2\<rparr>
     = (emptyConcentrator\<lparr>Created := [manifestV2]\<rparr>, None)
   \<and> dispatch emptyConcentrator \<lparr>name = Manifest_ID manifestV1, ManifestPair.Prior = Some manifestV1, ManifestPair.Post = None\<rparr>
     = (emptyConcentrator\<lparr>Deleted := [manifestV1]\<rparr>, None)
   \<and> dispatch emptyConcentrator \<lparr>name = Manifest_ID manifestV1, ManifestPair.Prior = Some manifestV1, ManifestPair.Post = Some manifestV1\<rparr>
     = (emptyConcentrator\<lparr>Retained := [manifestV1]\<rparr>, None)
   \<and> dispatch emptyConcentrator \<lparr>name = Manifest_ID manifestV2, ManifestPair.Prior = Some manifestV1, ManifestPair.Post = Some manifestV2\<rparr>
     = (emptyConcentrator\<lparr>Modified :=
          [\<lparr>name = Manifest_ID manifestV2, ManifestPair.Prior = Some manifestV1, ManifestPair.Post = Some manifestV2\<rparr>]\<rparr>, None)
   \<and> dispatch emptyConcentrator \<lparr>name = Manifest_ID manifestV1, ManifestPair.Prior = None, ManifestPair.Post = None\<rparr>
     = (emptyConcentrator, Some BlankManifestPair)"
  using
    dispatch_one_channel[where mp = "\<lparr>name = Manifest_ID manifestV2, ManifestPair.Prior = None, ManifestPair.Post = Some manifestV2\<rparr>"
      and q = manifestV2 and dc = emptyConcentrator]
    dispatch_one_channel[where mp = "\<lparr>name = Manifest_ID manifestV1, ManifestPair.Prior = Some manifestV1, ManifestPair.Post = None\<rparr>"
      and p = manifestV1 and dc = emptyConcentrator]
    dispatch_one_channel[where mp = "\<lparr>name = Manifest_ID manifestV1, ManifestPair.Prior = Some manifestV1, ManifestPair.Post = Some manifestV1\<rparr>"
      and p = manifestV1 and q = manifestV1 and dc = emptyConcentrator]
    dispatch_one_channel[where mp = "\<lparr>name = Manifest_ID manifestV2, ManifestPair.Prior = Some manifestV1, ManifestPair.Post = Some manifestV2\<rparr>"
      and p = manifestV1 and q = manifestV2 and dc = emptyConcentrator]
    dispatch_one_channel[where mp = "\<lparr>name = Manifest_ID manifestV1, ManifestPair.Prior = None, ManifestPair.Post = None\<rparr>"
      and dc = emptyConcentrator]
    manifestV1_neq_V2
  by (simp add: emptyConcentrator_def newDiffConcentrator_def)

lemma Deployments_Add_Some:
  "Deployments_Get ds (Deployment_ID d) = Some x \<Longrightarrow> Deployments_Add ds d = (ds, False)"
  by (simp add: Deployments_Add_def)

lemma Deployments_Add_None:
  "Deployments_Get ds (Deployment_ID d) = None \<Longrightarrow> Deployments_Add ds d = (ds @ [d], True)"
  by (simp add: Deployments_Add_def)

text \<open>
  Claim C6, as stated, at a bundle that has been consumed: the bundle holds a before
  deployment for the cluster and application that the pair's before side names, and add
  fails, but with the consumed-bundle error and not with a collision error.
\<close>

theorem add_consumed_not_collision:
  "Deployments_Get (before consumedBundleWithA) (Deployment_ID appOnA_next) = Some appOnA
   \<and> priorOf deletedOnA = Some appOnA_next
   \<and> add consumedBundleWithA deletedOnA = (consumedBundleWithA, Some ConsumedBundle)
   \<and> \<not> isCollision ConsumedBundle"
  by (simp add: Deployments_Get_def consumedBundleWithA_def bundleWithA_def Deployment_ID_def
      Deployment_ManifestID_def appOnA_next_def appOnA_def priorOf_def deletedOnA_def add_def)

text \<open>
  Claim C6, amended. For a bundle that has not been consumed and a pair whose sides name
  one and the same non-empty cluster: when the before set already holds a deployment with
  the DeploymentID of the pair's before side, add fails with the prior collision error and
  leaves the bundle as it was; when the after set already holds a deployment with the
  DeploymentID of the pair's after side (and the before side is absent or new), add fails
  with the post collision error, the after set is as it was, and the before set is as it
  was except that the pair's before side, if any, has been appended. In both cases every
  deployment stored before the call is still stored, unchanged.
\<close>

theorem add_collision:
  assumes "\<not> consumed db" and "pairCluster (priorOf pair) (postOf pair) = Inr c"
  shows "(priorOf pair = Some p \<and> Deployments_Get (before db) (Deployment_ID p) = Some x \<longrightarrow>
            add db pair = (db, Some (CollisionPrior c x p)))
       \<and> (postOf pair = Some q \<and> Deployments_Get (after db) (Deployment_ID q) = Some y
            \<and> (priorOf pair = None
                \<or> (\<exists>p'. priorOf pair = Some p' \<and> Deployments_Get (before db) (Deployment_ID p') = None)) \<longrightarrow>
            snd (add db pair) = Some (CollisionPost c y q)
            \<and> after (fst (add db pair)) = after db
            \<and> before (fst (add db pair)) = before db @ (case priorOf pair of None \<Rightarrow> [] | Some p' \<Rightarrow> [p'])
            \<and> consumed (fst (add db pair)) = consumed db)"
  using assms
  by (auto simp: add_def addPrior_def addPost_def Deployments_Add_Some Deployments_Add_None)

theorem add_collision_witness:
  "\<not> consumed bundleWithA \<and> pairCluster (priorOf deletedOnA) (postOf deletedOnA) = Inr ''cluster-a''
   \<and> add bundleWithA deletedOnA = (bundleWithA, Some (CollisionPrior ''cluster-a'' appOnA appOnA_next))"
proof -
  have h1: "\<not> consumed bundleWithA" by (simp add: bundleWithA_def)
  have h2: "pairCluster (priorOf deletedOnA) (postOf deletedOnA) = Inr ''cluster-a''"
    by (simp add: pairCluster_def priorOf_def postOf_def deletedOnA_def appOnA_next_def appOnA_def)
  have h3: "priorOf deletedOnA = Some appOnA_next"
    by (simp add: priorOf_def deletedOnA_def)
  have h4: "Deployments_Get (before bundleWithA) (Deployment_ID appOnA_next) = Some appOnA"
    by (simp add: Deployments_Get_def bundleWithA_def Deployment_ID_def Deployment_ManifestID_def
        appOnA_next_def appOnA_def)
  show ?thesis
    using add_collision[OF h1 h2, of appOnA_next appOnA] h1 h2 h3 h4 by simp
qed

text \<open>
  The checks that come before any collision check: a pair that names two clusters, or
  none, is answered with the invariant error, and the bundle stays as it is.
\<close>

lemma pairCluster_error_kinds:
  "pairCluster pr po = Inl e \<Longrightarrow> e = NoClusterName \<or> (\<exists>a b. e = TwoClustersNamed a b)"
  by (auto simp: pairCluster_def Let_def split: option.splits if_splits)

lemma add_invariant_error:
  "\<not> consumed db \<Longrightarrow> pairCluster (priorOf pair) (postOf pair) = Inl e \<Longrightarrow> add db pair = (db, Some e)"
  by (simp add: add_def)

lemma manifestPair_fst: "fst (manifestPair pb defs baseMs db) = db\<lparr>consumed := True\<rparr>"
  by (simp add: manifestPair_def Let_def split: sum.splits option.splits)

lemma manifestPair_consumed_irrelevant:
  "manifestPair pb defs baseMs (db\<lparr>consumed := b\<rparr>) = manifestPair pb defs baseMs db"
  by (simp add: manifestPair_def)

text \<open>
  Claim C8, as stated, at a bundle holding one deployment: the first call of manifestPair
  marks the bundle consumed, and a second call on the consumed bundle does not return an
  error.
\<close>

theorem second_manifestPair_succeeds:
  "consumed (fst (manifestPair PutbackManifests exampleDefs [] bundleWithA))
   \<and> \<not> isl (snd (manifestPair PutbackManifests exampleDefs []
                   (fst (manifestPair PutbackManifests exampleDefs [] bundleWithA))))"
  by (simp add: manifestPair_def PutbackManifests_def bundleWithA_def Only_def Let_def)

text \<open>
  Claim C8, amended. manifestPair marks the bundle consumed, and every later add to that
  bundle fails with the consumed-bundle error and leaves it as it is. manifestPair itself
  does not look at the mark: called again on the consumed bundle, it returns what the
  first call returned.
\<close>

theorem manifestPair_marks_consumed:
  "consumed (fst (manifestPair pb defs baseMs db))
   \<and> add (fst (manifestPair pb defs baseMs db)) pair
       = (fst (manifestPair pb defs baseMs db), Some ConsumedBundle)
   \<and> manifestPair pb defs baseMs (fst (manifestPair pb defs baseMs db))
       = manifestPair pb defs baseMs db"
  by (simp add: manifestPair_fst manifestPair_consumed_irrelevant add_def)

theorem manifestPair_marks_consumed_witness:
  "add (fst (manifestPair PutbackManifests exampleDefs [] bundleWithA)) deletedOnA
     = (consumedBundleWithA, Some ConsumedBundle)"
  using manifestPair_marks_consumed[of PutbackManifests exampleDefs "[]" bundleWithA deletedOnA]
  by (simp add: manifestPair_fst consumedBundleWithA_def)

lemma remdups_single: "xs \<noteq> [] \<Longrightarrow> \<forall>x\<in>set xs. x = a \<Longrightarrow> remdups xs = [a]"
proof (induction xs)
  case Nil
  then show ?case by simp
next
  case (Cons x xs)
  show ?case
  proof (cases "xs = []")
    case True
    then show ?thesis using Cons.prems by simp
  next
    case False
    then have "remdups xs = [a]" using Cons by simp
    moreover have "x \<in> set xs" using False Cons.prems by (cases xs) auto
    ultimately show ?thesis by simp
  qed
qed

lemma Manifest_ID_putbackOne: "Manifest_ID (putbackOne baseMs mid ds) = mid"
  by (simp add: Manifest_ID_def putbackOne_def)

lemma PutbackManifests_Nil: "PutbackManifests defs baseMs [] = Inr []"
  by (simp add: PutbackManifests_def)

lemma PutbackManifests_single:
  assumes "ds \<noteq> []" and "\<forall>d\<in>set ds. Deployment_ManifestID d = mid"
  shows "PutbackManifests defs baseMs ds = Inr [putbackOne baseMs mid ds]"
proof -
  have "remdups (map Deployment_ManifestID ds) = [mid]"
    using assms by (intro remdups_single) auto
  moreover have "filter (\<lambda>d. Deployment_ManifestID d = mid) ds = ds"
    using assms(2) by (simp add: filter_id_conv)
  ultimately show ?thesis by (simp add: PutbackManifests_def)
qed

text \<open>
  manifestPair for any PutbackManifests: when both sides are put back and each yields at
  most one manifest, the prior manifest is the one of the before set, the post manifest
  the one of the after set, and the name is the ID of the post manifest when there is
  one and the ID of the prior manifest otherwise.
\<close>

lemma manifestPair_result:
  assumes "pb defs baseMs (before b) = Inr ms1" and "Only ms1 = Inr p"
    and "pb defs baseMs (after b) = Inr ms2" and "Only ms2 = Inr q"
  shows "manifestPair pb defs baseMs b =
           (b\<lparr>consumed := True\<rparr>,
            case q of
              Some qm \<Rightarrow> Inr \<lparr>name = Manifest_ID qm, ManifestPair.Prior = p, ManifestPair.Post = q\<rparr>
            | None \<Rightarrow>
                (case p of
                   Some pm \<Rightarrow> Inr \<lparr>name = Manifest_ID pm, ManifestPair.Prior = p, ManifestPair.Post = None\<rparr>
                 | None \<Rightarrow> Inl (Panic ''nil pointer dereference'')))"
  using assms by (simp add: manifestPair_def Let_def split: option.splits)

lemma putback_Only:
  assumes "\<forall>d\<in>set ds. Deployment_ManifestID d = mid"
  shows "\<exists>ms. PutbackManifests defs baseMs ds = Inr ms \<and> Only ms = Inr (sideManifest baseMs mid ds)"
proof (cases "ds = []")
  case True
  then show ?thesis by (simp add: PutbackManifests_Nil Only_def sideManifest_def)
next
  case False
  then show ?thesis using PutbackManifests_single[OF False assms]
    by (simp add: Only_def sideManifest_def)
qed

lemma manifestPair_sides:
  assumes b: "\<forall>d\<in>set (before b). Deployment_ManifestID d = midB"
    and a: "\<forall>d\<in>set (after b). Deployment_ManifestID d = midA"
    and ne: "before b \<noteq> [] \<or> after b \<noteq> []"
  shows "manifestPair PutbackManifests defs baseMs b =
           (b\<lparr>consumed := True\<rparr>,
            Inr \<lparr>name = (if after b = [] then midB else midA),
                 ManifestPair.Prior = sideManifest baseMs midB (before b),
                 ManifestPair.Post = sideManifest baseMs midA (after b)\<rparr>)"
proof -
  obtain ms1 where p1: "PutbackManifests defs baseMs (before b) = Inr ms1"
    and o1: "Only ms1 = Inr (sideManifest baseMs midB (before b))"
    using putback_Only[OF b] by blast
  obtain ms2 where p2: "PutbackManifests defs baseMs (after b) = Inr ms2"
    and o2: "Only ms2 = Inr (sideManifest baseMs midA (after b))"
    using putback_Only[OF a] by blast
  have "manifestPair PutbackManifests defs baseMs b =
           (b\<lparr>consumed := True\<rparr>,
            case sideManifest baseMs midA (after b) of
              Some qm \<Rightarrow> Inr \<lparr>name = Manifest_ID qm,
                              ManifestPair.Prior = sideManifest baseMs midB (before b),
                              ManifestPair.Post = sideManifest baseMs midA (after b)\<rparr>
            | None \<Rightarrow>
                (case sideManifest baseMs midB (before b) of
                   Some pm \<Rightarrow> Inr \<lparr>name = Manifest_ID pm,
                                   ManifestPair.Prior = sideManifest baseMs midB (before b),
                                   ManifestPair.Post = None\<rparr>
                 | None \<Rightarrow> Inl (Panic ''nil pointer dereference'')))"
    using p1 o1 p2 o2 by (rule manifestPair_result)
  then show ?thesis
    using ne by (simp add: sideManifest_def Manifest_ID_putbackOne)
qed

lemma manifestPair_bundleOf:
  assumes "bundleOf mid b"
  shows "manifestPair PutbackManifests defs baseMs b =
           (b\<lparr>consumed := True\<rparr>,
            Inr \<lparr>name = mid, ManifestPair.Prior = sideManifest baseMs mid (before b),
                 ManifestPair.Post = sideManifest baseMs mid (after b)\<rparr>)"
proof -
  have "\<forall>d\<in>set (before b). Deployment_ManifestID d = mid"
    and "\<forall>d\<in>set (after b). Deployment_ManifestID d = mid"
    and "before b \<noteq> [] \<or> after b \<noteq> []"
    using assms by (auto simp: bundleOf_def)
  then show ?thesis using manifestPair_sides[of b mid mid defs baseMs] by simp
qed

lemma set_clusters: "set (clusters b) = ClusterName ` (set (before b) \<union> set (after b))"
  by (simp add: clusters_def Snapshot_def image_Un)

lemma completeBundle_nonempty: "completeBundle defs midB midA b \<Longrightarrow> before b \<noteq> [] \<or> after b \<noteq> []"
proof -
  assume "completeBundle defs midB midA b"
  then have "set (clusters b) \<noteq> {}" by (auto simp: completeBundle_def)
  then show ?thesis by (auto simp: set_clusters)
qed

text \<open>
  Claim C7. For every complete bundle (one contribution per cluster on each side, each
  side of one application identity), manifestPair, with PutbackManifests as the
  specification describes it, returns exactly one manifest pair and marks the bundle
  consumed. The prior manifest of the pair is put back from the before set and is absent
  exactly when that set is empty; the post manifest is put back from the after set and is
  absent exactly when that set is empty. The name of the pair is the ID of its post
  manifest when there is one, which is the identity of the after side, and the ID of its
  prior manifest otherwise, which is the identity of the before side.
\<close>

theorem manifestPair_of_complete_bundle:
  assumes "completeBundle defs midB midA b"
  shows "\<exists>mp. manifestPair PutbackManifests defs baseMs b = (b\<lparr>consumed := True\<rparr>, Inr mp)
           \<and> ManifestPair.Prior mp = sideManifest baseMs midB (before b)
           \<and> ManifestPair.Post mp = sideManifest baseMs midA (after b)
           \<and> (ManifestPair.Prior mp = None \<longleftrightarrow> before b = [])
           \<and> (ManifestPair.Post mp = None \<longleftrightarrow> after b = [])
           \<and> (\<forall>q. ManifestPair.Post mp = Some q \<longrightarrow> name mp = Manifest_ID q \<and> name mp = midA)
           \<and> (ManifestPair.Post mp = None \<longrightarrow>
                (\<exists>p. ManifestPair.Prior mp = Some p \<and> name mp = Manifest_ID p \<and> name mp = midB))"
proof -
  have b: "\<forall>d\<in>set (before b). Deployment_ManifestID d = midB"
    and a: "\<forall>d\<in>set (after b). Deployment_ManifestID d = midA"
    using assms by (auto simp: completeBundle_def list_all_iff)
  have ne: "before b \<noteq> [] \<or> after b \<noteq> []" using assms by (rule completeBundle_nonempty)
  show ?thesis
    using ne by (auto simp: manifestPair_sides[OF b a ne] sideManifest_def Manifest_ID_putbackOne)
qed

theorem manifestPair_of_complete_bundle_witness:
  "completeBundle exampleDefs (''github.com/example/app'', []) (''github.com/example/app'', ''canary'')
     bundleBothSides
   \<and> manifestPair PutbackManifests exampleDefs [] bundleBothSides =
       (bundleBothSides\<lparr>consumed := True\<rparr>,
        Inr \<lparr>name = (''github.com/example/app'', ''canary''),
             ManifestPair.Prior = Some \<lparr>Source = ''github.com/example/app'', Flavor = [], Owners = [],
                            Deployments = [''cluster-a'' \<mapsto> (''1.0.0'', 3)]\<rparr>,
             ManifestPair.Post = Some \<lparr>Source = ''github.com/example/app'', Flavor = ''canary'', Owners = [],
                            Deployments = [''cluster-a'' \<mapsto> (''1.0.1'', 3)]\<rparr>\<rparr>)
   \<and> completeBundle exampleDefs (''github.com/example/app'', []) (''github.com/example/app'', [])
       bundleWithA
   \<and> manifestPair PutbackManifests exampleDefs [] bundleWithA =
       (consumedBundleWithA,
        Inr \<lparr>name = (''github.com/example/app'', []),
             ManifestPair.Prior = Some \<lparr>Source = ''github.com/example/app'', Flavor = [], Owners = [],
                            Deployments = [''cluster-a'' \<mapsto> (''1.0.0'', 3)]\<rparr>,
             ManifestPair.Post = None\<rparr>)"
proof -
  have c1: "completeBundle exampleDefs (''github.com/example/app'', [])
              (''github.com/example/app'', ''canary'') bundleBothSides"
    by (simp add: completeBundle_def exampleDefs_def bundleBothSides_def clusters_def Snapshot_def
        appOnA_def appOnA_next_def canaryOnA_def Deployment_ManifestID_def)
  have c2: "completeBundle exampleDefs (''github.com/example/app'', []) (''github.com/example/app'', [])
              bundleWithA"
    by (simp add: completeBundle_def exampleDefs_def bundleWithA_def clusters_def Snapshot_def
        appOnA_def Deployment_ManifestID_def)
  have s1: "sideManifest [] (''github.com/example/app'', []) [appOnA] =
      Some \<lparr>Source = ''github.com/example/app'', Flavor = [], Owners = [],
            Deployments = [''cluster-a'' \<mapsto> (''1.0.0'', 3)]\<rparr>"
    by (simp add: sideManifest_def putbackOne_def appOnA_def)
  have s2: "sideManifest [] (''github.com/example/app'', ''canary'') [canaryOnA] =
      Some \<lparr>Source = ''github.com/example/app'', Flavor = ''canary'', Owners = [],
            Deployments = [''cluster-a'' \<mapsto> (''1.0.1'', 3)]\<rparr>"
    by (simp add: sideManifest_def putbackOne_def appOnA_def appOnA_next_def canaryOnA_def)
  have s3: "sideManifest [] (''github.com/example/app'', []) [] = None"
    by (simp add: sideManifest_def)
  from manifestPair_of_complete_bundle[OF c1, of "[]"]
  have m1: "manifestPair PutbackManifests exampleDefs [] bundleBothSides =
       (bundleBothSides\<lparr>consumed := True\<rparr>,
        Inr \<lparr>name = (''github.com/example/app'', ''canary''),
             ManifestPair.Prior = Some \<lparr>Source = ''github.com/example/app'', Flavor = [], Owners = [],
                            Deployments = [''cluster-a'' \<mapsto> (''1.0.0'', 3)]\<rparr>,
             ManifestPair.Post = Some \<lparr>Source = ''github.com/example/app'', Flavor = ''canary'', Owners = [],
                            Deployments = [''cluster-a'' \<mapsto> (''1.0.1'', 3)]\<rparr>\<rparr>)"
    by (auto simp: bundleBothSides_def s1 s2)
  from manifestPair_of_complete_bundle[OF c2, of "[]"]
  have m2: "manifestPair PutbackManifests exampleDefs [] bundleWithA =
       (consumedBundleWithA,
        Inr \<lparr>name = (''github.com/example/app'', []),
             ManifestPair.Prior = Some \<lparr>Source = ''github.com/example/app'', Flavor = [], Owners = [],
                            Deployments = [''cluster-a'' \<mapsto> (''1.0.0'', 3)]\<rparr>,
             ManifestPair.Post = None\<rparr>)"
    by (auto simp: bundleWithA_def consumedBundleWithA_def s1 s3)
  show ?thesis using c1 m1 c2 m2 by simp
qed

section \<open>Properties of the diff concentrator\<close>

lemma bundleOf_iff: "bundleOf mid b \<longleftrightarrow> nonempty b \<and> idsOK mid b"
  by (auto simp: bundleOf_def nonempty_def idsOK_def list_all_iff)

lemma Deployments_Get_SomeD:
  "Deployments_Get ds k = Some x \<Longrightarrow> x \<in> set ds \<and> Deployment_ID x = k"
  by (auto simp: Deployments_Get_def find_Some_iff)

lemma length_clusters: "length (clusters b) = card (set (clusters b))"
  by (simp add: clusters_def length_remdups_card_conv)

lemma pairCluster_valid:
  assumes "validPair mid dp"
  shows "\<exists>c. pairCluster (priorOf dp) (postOf dp) = Inr c
             \<and> (\<forall>p. priorOf dp = Some p \<longrightarrow> ClusterName p = c)
             \<and> (\<forall>q. postOf dp = Some q \<longrightarrow> ClusterName q = c)"
  using assms
  by (auto simp: validPair_def sideOK_def pairCluster_def split: option.splits)

text \<open>
  add on a bundle that is not consumed, for a valid pair: no panic; the bundle stays a
  bundle of the same application; an error is a collision, which needs a deployment
  already there and leaves the set of clusters as it was.
\<close>

lemma add_valid:
  assumes nc: "\<not> consumed b" and ids: "idsOK mid b" and v: "validPair mid dp"
  shows "\<exists>b' e. add b dp = (b', e)
           \<and> idsOK mid b' \<and> \<not> consumed b'
           \<and> (nonempty b \<or> e = None \<longrightarrow> nonempty b')
           \<and> (\<forall>er. e = Some er \<longrightarrow> \<not> isPanic er \<and> nonempty b \<and> set (clusters b') = set (clusters b))"
proof -
  obtain c where c: "pairCluster (priorOf dp) (postOf dp) = Inr c"
    and cp: "\<forall>p. priorOf dp = Some p \<longrightarrow> ClusterName p = c"
    and cq: "\<forall>q. postOf dp = Some q \<longrightarrow> ClusterName q = c"
    using pairCluster_valid[OF v] by blast
  have sp: "\<forall>p. priorOf dp = Some p \<longrightarrow> Deployment_ManifestID p = mid"
    and sq: "\<forall>q. postOf dp = Some q \<longrightarrow> Deployment_ManifestID q = mid"
    and some: "priorOf dp \<noteq> None \<or> postOf dp \<noteq> None"
    using v by (auto simp: validPair_def sideOK_def split: option.splits)
  have prior: "\<exists>b1 e1. addPrior b c (priorOf dp) = (b1, e1)
      \<and> idsOK mid b1 \<and> \<not> consumed b1 \<and> after b1 = after b
      \<and> (nonempty b \<or> (e1 = None \<and> priorOf dp \<noteq> None) \<longrightarrow> nonempty b1)
      \<and> (\<forall>er. e1 = Some er \<longrightarrow> \<not> isPanic er \<and> nonempty b \<and> b1 = b)
      \<and> (e1 = None \<longrightarrow> before b1 = before b @ (case priorOf dp of None \<Rightarrow> [] | Some p \<Rightarrow> [p]))"
  proof (cases "priorOf dp")
    case None
    then show ?thesis using nc ids by (simp add: addPrior_def)
  next
    case (Some p)
    show ?thesis
    proof (cases "Deployments_Get (before b) (Deployment_ID p)")
      case None
      then show ?thesis using Some nc ids sp
        by (simp add: addPrior_def Deployments_Add_None idsOK_def nonempty_def)
    next
      case (Some x)
      then have "x \<in> set (before b)" by (simp add: Deployments_Get_SomeD)
      then have "nonempty b" by (auto simp: nonempty_def)
      then show ?thesis using Some \<open>priorOf dp = Some p\<close> nc ids
        by (simp add: addPrior_def Deployments_Add_Some)
    qed
  qed
  then obtain b1 e1 where p1: "addPrior b c (priorOf dp) = (b1, e1)"
    and ids1: "idsOK mid b1" and nc1: "\<not> consumed b1" and aft1: "after b1 = after b"
    and ne1: "nonempty b \<or> (e1 = None \<and> priorOf dp \<noteq> None) \<longrightarrow> nonempty b1"
    and er1: "\<forall>er. e1 = Some er \<longrightarrow> \<not> isPanic er \<and> nonempty b \<and> b1 = b"
    and ok1: "e1 = None \<longrightarrow> before b1 = before b @ (case priorOf dp of None \<Rightarrow> [] | Some p \<Rightarrow> [p])"
    by blast
  show ?thesis
  proof (cases e1)
    case (Some er)
    then have "add b dp = (b1, Some er)" using nc c p1 by (simp add: add_def)
    then show ?thesis using Some er1 ids nc by auto
  next
    case None
    then have addeq: "add b dp = addPost b1 c (postOf dp)" using nc c p1 by (simp add: add_def)
    show ?thesis
    proof (cases "postOf dp")
      case None
      then have "priorOf dp \<noteq> None" using some by simp
      then have "nonempty b1" using ne1 \<open>e1 = None\<close> by simp
      then show ?thesis using addeq None ids1 nc1 by (simp add: addPost_def)
    next
      case (Some q)
      show ?thesis
      proof (cases "Deployments_Get (after b1) (Deployment_ID q)")
        case None
        then have "add b dp = (b1\<lparr>after := after b1 @ [q]\<rparr>, None)"
          using addeq Some by (simp add: addPost_def Deployments_Add_None)
        moreover have "idsOK mid (b1\<lparr>after := after b1 @ [q]\<rparr>)"
          using ids1 sq Some by (simp add: idsOK_def)
        moreover have "nonempty (b1\<lparr>after := after b1 @ [q]\<rparr>)" by (simp add: nonempty_def)
        ultimately show ?thesis using nc1 by simp
      next
        case (Some y)
        then have y: "y \<in> set (after b)" "Deployment_ID y = Deployment_ID q"
          using Deployments_Get_SomeD[OF Some] aft1 by simp_all
        then have neb: "nonempty b" by (auto simp: nonempty_def)
        have cy: "ClusterName y = c" using y(2) cq \<open>postOf dp = Some q\<close> by (simp add: Deployment_ID_def)
        have addr: "add b dp = (b1, Some (CollisionPost c y q))"
          using addeq Some \<open>postOf dp = Some q\<close> by (simp add: addPost_def Deployments_Add_Some)
        have "set (clusters b1) = set (clusters b)"
        proof -
          have "before b1 = before b @ (case priorOf dp of None \<Rightarrow> [] | Some p \<Rightarrow> [p])"
            using ok1 \<open>e1 = None\<close> by simp
          moreover have "c \<in> ClusterName ` set (after b)" using y(1) cy by auto
          ultimately show ?thesis using aft1 cp
            by (auto simp: set_clusters split: option.splits)
        qed
        then show ?thesis using addr ids1 nc1 neb ne1 by auto
      qed
    qed
  qed
qed

lemma add_on_consumed: "consumed b \<Longrightarrow> add b dp = (b, Some ConsumedBundle)"
  by (simp add: add_def)

text \<open>
  An event that add rejects without panic: addPair sends the error on the Errors channel,
  keeps the bundle as add left it, and sends nothing else.
\<close>

lemma addPair_rejected:
  assumes "add (case coll mid of None \<Rightarrow> newDepBundle | Some b \<Rightarrow> b) dp = (b1, Some e)"
    and "\<not> isPanic e"
  shows "addPair pb (coll, con) mid dp = Inr (coll(mid \<mapsto> b1), con\<lparr>Errors := Errors con @ [e]\<rparr>)"
  using assms by (simp add: addPair_def)

lemma emitted_Errors [simp]: "emitted (dc\<lparr>Errors := es\<rparr>) m = emitted dc m"
  by (simp add: emitted_def)

lemma clusters_consumed [simp]: "clusters (b\<lparr>consumed := x\<rparr>) = clusters b"
  by (simp add: clusters_def)

lemma bundleOf_consumed [simp]: "bundleOf mid (b\<lparr>consumed := x\<rparr>) = bundleOf mid b"
  by (simp add: bundleOf_def)

lemma dispatch_emitted:
  assumes "name mp = mid"
    and "\<forall>p. ManifestPair.Prior mp = Some p \<longrightarrow> Manifest_ID p = mid"
    and "\<forall>q. ManifestPair.Post mp = Some q \<longrightarrow> Manifest_ID q = mid"
    and "ManifestPair.Prior mp \<noteq> None \<or> ManifestPair.Post mp \<noteq> None"
  shows "\<exists>dc'. dispatch dc mp = (dc', None) \<and> Defs dc' = Defs dc
            \<and> baseManifests dc' = baseManifests dc
            \<and> emitted dc' mid = emitted dc mid + 1
            \<and> (\<forall>m. m \<noteq> mid \<longrightarrow> emitted dc' m = emitted dc m)"
  using assms
  by (cases "ManifestPair.Prior mp"; cases "ManifestPair.Post mp")
     (auto simp: dispatch_def emitted_def)

text \<open>
  resolve on a non-empty bundle of one application sends exactly one value, for that
  application, and marks the bundle consumed.
\<close>

lemma resolve_bundleOf:
  assumes "bundleOf mid b"
  shows "\<exists>dc'. resolve PutbackManifests dc mid b = Inr (dc', b\<lparr>consumed := True\<rparr>)
            \<and> Defs dc' = Defs dc \<and> baseManifests dc' = baseManifests dc
            \<and> emitted dc' mid = emitted dc mid + 1
            \<and> (\<forall>m. m \<noteq> mid \<longrightarrow> emitted dc' m = emitted dc m)"
proof -
  let ?mp = "\<lparr>name = mid, ManifestPair.Prior = sideManifest (baseManifests dc) mid (before b),
               ManifestPair.Post = sideManifest (baseManifests dc) mid (after b)\<rparr>"
  have ne: "before b \<noteq> [] \<or> after b \<noteq> []" using assms by (simp add: bundleOf_def)
  have "\<exists>dc'. dispatch dc ?mp = (dc', None) \<and> Defs dc' = Defs dc
            \<and> baseManifests dc' = baseManifests dc
            \<and> emitted dc' mid = emitted dc mid + 1
            \<and> (\<forall>m. m \<noteq> mid \<longrightarrow> emitted dc' m = emitted dc m)"
    using ne by (intro dispatch_emitted) (auto simp: sideManifest_def Manifest_ID_putbackOne)
  then obtain dc' where d: "dispatch dc ?mp = (dc', None)" and r: "Defs dc' = Defs dc"
      "baseManifests dc' = baseManifests dc"
      "emitted dc' mid = emitted dc mid + 1"
      "\<forall>m. m \<noteq> mid \<longrightarrow> emitted dc' m = emitted dc m"
    by blast
  have "resolve PutbackManifests dc mid b = Inr (dc', b\<lparr>consumed := True\<rparr>)"
    by (simp add: resolve_def manifestPair_bundleOf[OF assms] d)
  then show ?thesis using r by blast
qed

lemma concInv_None: "concInv (coll, con) \<Longrightarrow> coll mid = None \<Longrightarrow> emitted con mid = 0"
  unfolding concInv_def by (metis fst_conv snd_conv)

lemma concInv_Some:
  "concInv (coll, con) \<Longrightarrow> coll mid = Some b \<Longrightarrow>
     bundleOf mid b \<and> emitted con mid = (if consumed b then 1 else 0)"
  unfolding concInv_def by (metis fst_conv snd_conv)

lemma countInv_Some:
  "countInv (coll, con) \<Longrightarrow> coll mid = Some b \<Longrightarrow>
     (consumed b \<longleftrightarrow> length (clusters b) = length (Clusters (Defs con)))"
  unfolding countInv_def by (metis fst_conv snd_conv)

lemma concInv_update:
  assumes "concInv (coll, con)" and "bundleOf mid b"
    and "emitted con' mid = (if consumed b then 1 else 0)"
    and "\<And>m. m \<noteq> mid \<Longrightarrow> emitted con' m = emitted con m"
  shows "concInv (coll(mid \<mapsto> b), con')"
  unfolding concInv_def
proof (intro allI conjI impI)
  fix m
  assume "fst (coll(mid \<mapsto> b), con') m = None"
  then have "m \<noteq> mid" "coll m = None" by (auto split: if_splits)
  then show "emitted (snd (coll(mid \<mapsto> b), con')) m = 0"
    using concInv_None[OF assms(1)] assms(4) by simp
next
  fix m b'
  assume h: "fst (coll(mid \<mapsto> b), con') m = Some b'"
  show "bundleOf m b'"
  proof (cases "m = mid")
    case True
    then show ?thesis using h assms(2) by simp
  next
    case False
    then show ?thesis using h concInv_Some[OF assms(1)] by simp
  qed
  show "emitted (snd (coll(mid \<mapsto> b), con')) m = (if consumed b' then 1 else 0)"
  proof (cases "m = mid")
    case True
    then show ?thesis using h assms(3) by simp
  next
    case False
    then show ?thesis using h concInv_Some[OF assms(1), of m b'] assms(4) by simp
  qed
qed

lemma countInv_update:
  assumes "countInv (coll, con)" and "Defs con' = Defs con"
    and "consumed b \<longleftrightarrow> length (clusters b) = length (Clusters (Defs con))"
  shows "countInv (coll(mid \<mapsto> b), con')"
  unfolding countInv_def
proof (intro allI impI)
  fix m b'
  assume h: "fst (coll(mid \<mapsto> b), con') m = Some b'"
  show "consumed b' \<longleftrightarrow> length (clusters b') = length (Clusters (Defs (snd (coll(mid \<mapsto> b), con'))))"
  proof (cases "m = mid")
    case True
    then show ?thesis using h assms(2,3) by simp
  next
    case False
    then show ?thesis using h countInv_Some[OF assms(1), of m b'] assms(2) by simp
  qed
qed

text \<open>One event: addPair keeps both invariants and does not panic.\<close>

lemma addPair_step:
  assumes inv: "concInv st" and cnt: "countInv st" and v: "validPair mid dp"
  shows "\<exists>st'. addPair PutbackManifests st mid dp = Inr st' \<and> concInv st' \<and> countInv st'
            \<and> Defs (snd st') = Defs (snd st) \<and> baseManifests (snd st') = baseManifests (snd st)
            \<and> dom (fst st') = insert mid (dom (fst st))"
proof -
  obtain coll con where st: "st = (coll, con)" by (cases st)
  note inv' = inv[unfolded st] and cnt' = cnt[unfolded st]
  define b0 where "b0 = (case coll mid of None \<Rightarrow> newDepBundle | Some b \<Rightarrow> b)"
  show ?thesis
  proof (cases "consumed b0")
    case True
    then obtain b where b: "coll mid = Some b" "b0 = b"
      by (cases "coll mid") (auto simp: b0_def newDepBundle_def)
    let ?con' = "con\<lparr>Errors := Errors con @ [ConsumedBundle]\<rparr>"
    have r: "addPair PutbackManifests st mid dp = Inr (coll(mid \<mapsto> b0), ?con')"
      using True by (simp add: addPair_def st b0_def[symmetric] add_on_consumed)
    have "concInv (coll(mid \<mapsto> b0), ?con')"
      using concInv_Some[OF inv' b(1)] b(2) by (intro concInv_update[OF inv']) simp_all
    moreover have "countInv (coll(mid \<mapsto> b0), ?con')"
      using countInv_Some[OF cnt' b(1)] b(2) by (intro countInv_update[OF cnt']) simp_all
    ultimately show ?thesis using r st by auto
  next
    case False
    have ids0: "idsOK mid b0"
    proof (cases "coll mid")
      case None
      then show ?thesis by (simp add: b0_def newDepBundle_def NewDeployments_def idsOK_def)
    next
      case (Some b)
      then show ?thesis using concInv_Some[OF inv' Some] by (simp add: b0_def bundleOf_iff)
    qed
    have em0: "emitted con mid = 0"
    proof (cases "coll mid")
      case None
      then show ?thesis using concInv_None[OF inv'] by simp
    next
      case (Some b)
      then show ?thesis using concInv_Some[OF inv' Some] False by (simp add: b0_def)
    qed
    have ne0: "nonempty b0 \<Longrightarrow> coll mid = Some b0"
      by (cases "coll mid") (auto simp: b0_def newDepBundle_def NewDeployments_def nonempty_def)
    obtain b1 e where a: "add b0 dp = (b1, e)" and ids1: "idsOK mid b1" and nc1: "\<not> consumed b1"
      and ne1: "nonempty b0 \<or> e = None \<longrightarrow> nonempty b1"
      and er: "\<forall>er. e = Some er \<longrightarrow> \<not> isPanic er \<and> nonempty b0 \<and> set (clusters b1) = set (clusters b0)"
      using add_valid[OF False ids0 v] by blast
    show ?thesis
    proof (cases e)
      case (Some er')
      then have np: "\<not> isPanic er'" and neb: "nonempty b0" and cl: "set (clusters b1) = set (clusters b0)"
        using er by auto
      have c0: "coll mid = Some b0" using ne0 neb by simp
      have len: "length (clusters b1) = length (clusters b0)" using cl by (simp add: length_clusters)
      let ?con' = "con\<lparr>Errors := Errors con @ [er']\<rparr>"
      have r: "addPair PutbackManifests st mid dp = Inr (coll(mid \<mapsto> b1), ?con')"
        using a Some np by (simp add: addPair_def st b0_def[symmetric])
      have bo1: "bundleOf mid b1" using ids1 ne1 neb by (simp add: bundleOf_iff)
      have "concInv (coll(mid \<mapsto> b1), ?con')"
        using bo1 nc1 em0 by (intro concInv_update[OF inv']) simp_all
      moreover have "countInv (coll(mid \<mapsto> b1), ?con')"
        using countInv_Some[OF cnt' c0] False nc1 len by (intro countInv_update[OF cnt']) simp_all
      ultimately show ?thesis using r st by auto
    next
      case None
      then have bo1: "bundleOf mid b1" using ids1 ne1 by (simp add: bundleOf_iff)
      show ?thesis
      proof (cases "length (clusters b1) = length (Clusters (Defs con))")
        case True
        obtain con1 where res: "resolve PutbackManifests con mid b1 = Inr (con1, b1\<lparr>consumed := True\<rparr>)"
          and d1: "Defs con1 = Defs con" and bm1: "baseManifests con1 = baseManifests con"
          and em1: "emitted con1 mid = emitted con mid + 1"
          and em2: "\<And>m. m \<noteq> mid \<Longrightarrow> emitted con1 m = emitted con m"
          using resolve_bundleOf[OF bo1, of con] by blast
        have r: "addPair PutbackManifests st mid dp = Inr (coll(mid \<mapsto> b1\<lparr>consumed := True\<rparr>), con1)"
          using a None True res by (simp add: addPair_def st b0_def[symmetric])
        have "concInv (coll(mid \<mapsto> b1\<lparr>consumed := True\<rparr>), con1)"
          using bo1 em0 em1 em2 by (intro concInv_update[OF inv']) simp_all
        moreover have "countInv (coll(mid \<mapsto> b1\<lparr>consumed := True\<rparr>), con1)"
          using True d1 by (intro countInv_update[OF cnt']) simp_all
        ultimately show ?thesis using r st d1 bm1 by auto
      next
        case False
        have r: "addPair PutbackManifests st mid dp = Inr (coll(mid \<mapsto> b1), con)"
          using a None False by (simp add: addPair_def st b0_def[symmetric])
        have "concInv (coll(mid \<mapsto> b1), con)"
          using bo1 nc1 em0 by (intro concInv_update[OF inv']) simp_all
        moreover have "countInv (coll(mid \<mapsto> b1), con)"
          using False nc1 by (intro countInv_update[OF cnt']) simp_all
        ultimately show ?thesis using r st by auto
      qed
    qed
  qed
qed

lemma validEvent_key: "validEvent ev \<Longrightarrow> \<exists>mid. eventKey ev = Inr mid \<and> validPair mid (snd ev)"
  by (cases "eventKey ev") (simp_all add: validEvent_def)

lemma consume_valid:
  assumes "\<forall>ev\<in>set evs. validEvent ev" and "concInv st" and "countInv st"
  shows "\<exists>st'. consume PutbackManifests st evs = Inr st' \<and> concInv st' \<and> countInv st'
            \<and> Defs (snd st') = Defs (snd st)
            \<and> dom (fst st') = dom (fst st) \<union> {m. Inr m \<in> eventKey ` set evs}"
  using assms
proof (induction evs arbitrary: st)
  case Nil
  then show ?case by simp
next
  case (Cons ev evs)
  obtain mid where k: "eventKey ev = Inr mid" and v: "validPair mid (snd ev)"
    using Cons.prems(1) validEvent_key[of ev] by auto
  obtain st1 where s1: "addPair PutbackManifests st mid (snd ev) = Inr st1"
    and i1: "concInv st1" and c1: "countInv st1" and d1: "Defs (snd st1) = Defs (snd st)"
    and dm1: "dom (fst st1) = insert mid (dom (fst st))"
    using addPair_step[OF Cons.prems(2,3) v] by blast
  have "\<forall>ev\<in>set evs. validEvent ev" using Cons.prems(1) by simp
  from Cons.IH[OF this i1 c1]
  obtain st' where s2: "consume PutbackManifests st1 evs = Inr st'"
    and i2: "concInv st'" and c2: "countInv st'" and d2: "Defs (snd st') = Defs (snd st1)"
    and dm2: "dom (fst st') = dom (fst st1) \<union> {m. Inr m \<in> eventKey ` set evs}"
    by blast
  have "consume PutbackManifests st (ev # evs) = Inr st'" using k s1 s2 by simp
  moreover have "dom (fst st') = dom (fst st) \<union> {m. Inr m \<in> eventKey ` set (ev # evs)}"
    using dm1 dm2 k by auto
  ultimately show ?case using i2 c2 d1 d2 by auto
qed

text \<open>
  The final loop keeps the invariant, does not panic, and leaves every bundle it visits
  consumed.
\<close>

lemma flush_inv:
  assumes "concInv st"
  shows "\<exists>st'. flush PutbackManifests st mids = Inr st' \<and> concInv st'
            \<and> dom (fst st') = dom (fst st)
            \<and> (\<forall>m b. fst st' m = Some b \<longrightarrow>
                  m \<in> set mids \<or> (\<exists>b0. fst st m = Some b0 \<and> consumed b0) \<longrightarrow> consumed b)"
  using assms
proof (induction mids arbitrary: st)
  case Nil
  then show ?case by auto
next
  case (Cons mid mids)
  obtain coll con where st: "st = (coll, con)" by (cases st)
  note inv' = Cons.prems[unfolded st]
  show ?case
  proof (cases "coll mid")
    case None
    from Cons.IH[OF Cons.prems] obtain st' where
      f: "flush PutbackManifests st mids = Inr st'" and i: "concInv st'"
      and d: "dom (fst st') = dom (fst st)"
      and c: "\<forall>m b. fst st' m = Some b \<longrightarrow>
                  m \<in> set mids \<or> (\<exists>b0. fst st m = Some b0 \<and> consumed b0) \<longrightarrow> consumed b"
      by blast
    have "flush PutbackManifests st (mid # mids) = Inr st'" using None f st by simp
    moreover have "fst st' mid = None"
    proof -
      have "mid \<notin> dom (fst st)" using None st by auto
      then have "mid \<notin> dom (fst st')" using d by simp
      then show ?thesis by blast
    qed
    ultimately show ?thesis using i d c by (metis option.distinct(1) set_ConsD)
  next
    case (Some b)
    show ?thesis
    proof (cases "consumed b")
      case True
      from Cons.IH[OF Cons.prems] obtain st' where
        f: "flush PutbackManifests st mids = Inr st'" and i: "concInv st'"
        and d: "dom (fst st') = dom (fst st)"
        and c: "\<forall>m b. fst st' m = Some b \<longrightarrow>
                  m \<in> set mids \<or> (\<exists>b0. fst st m = Some b0 \<and> consumed b0) \<longrightarrow> consumed b"
        by blast
      have "flush PutbackManifests st (mid # mids) = Inr st'" using Some True f st by simp
      moreover have "\<forall>m b'. fst st' m = Some b' \<longrightarrow>
          m \<in> set (mid # mids) \<or> (\<exists>b0. fst st m = Some b0 \<and> consumed b0) \<longrightarrow> consumed b'"
        using c Some True st by (metis fst_conv set_ConsD)
      ultimately show ?thesis using i d by blast
    next
      case False
      have bo: "bundleOf mid b" and em0: "emitted con mid = 0"
        using concInv_Some[OF inv' Some] False by simp_all
      obtain con1 where res: "resolve PutbackManifests con mid b = Inr (con1, b\<lparr>consumed := True\<rparr>)"
        and em1: "emitted con1 mid = emitted con mid + 1"
        and em2: "\<And>m. m \<noteq> mid \<Longrightarrow> emitted con1 m = emitted con m"
        using resolve_bundleOf[OF bo, of con] by blast
      let ?st1 = "(coll(mid \<mapsto> b\<lparr>consumed := True\<rparr>), con1)"
      have i1: "concInv ?st1"
        using bo em0 em1 em2 by (intro concInv_update[OF inv']) simp_all
      from Cons.IH[OF i1] obtain st' where
        f: "flush PutbackManifests ?st1 mids = Inr st'" and i: "concInv st'"
        and d: "dom (fst st') = dom (fst ?st1)"
        and c: "\<forall>m b'. fst st' m = Some b' \<longrightarrow>
                  m \<in> set mids \<or> (\<exists>b0. fst ?st1 m = Some b0 \<and> consumed b0) \<longrightarrow> consumed b'"
        by blast
      have fl: "flush PutbackManifests st (mid # mids) = Inr st'"
        using Some False res f st by simp
      have dd: "dom (fst st') = dom (fst st)" using d Some st by auto
      have "\<forall>m b'. fst st' m = Some b' \<longrightarrow>
          m \<in> set (mid # mids) \<or> (\<exists>b0. fst st m = Some b0 \<and> consumed b0) \<longrightarrow> consumed b'"
      proof (intro allI impI)
        fix m b'
        assume h: "fst st' m = Some b'"
          and h2: "m \<in> set (mid # mids) \<or> (\<exists>b0. fst st m = Some b0 \<and> consumed b0)"
        have "m \<in> set mids \<or> (\<exists>b0. fst ?st1 m = Some b0 \<and> consumed b0)"
        proof (cases "m = mid")
          case True
          then show ?thesis by simp
        next
          case False
          then show ?thesis using h2 st by auto
        qed
        then show "consumed b'" using c h by blast
      qed
      then show ?thesis using fl i dd by blast
    qed
  qed
qed

lemma concInv_init: "concInv (Map.empty, newDiffConcentrator defs baseMs)"
  by (simp add: concInv_def emitted_def newDiffConcentrator_def)

lemma countInv_init: "countInv (Map.empty, newDiffConcentrator defs baseMs)"
  by (simp add: countInv_def)

text \<open>
  Claim C1, as stated, at a single created event whose deployment carries no cluster
  name: the application receives an event, add rejects it with an error, nothing is sent
  for the application on the four output channels, and the final loop, which finds the
  application's bundle empty, ends in the panic of manifestPair instead of sending
  anything.
\<close>

theorem concentrate_rejected_event_no_output:
  "eventKey (Start, namelessCreated) = Inr appID
   \<and> consume PutbackManifests (Map.empty, emptyConcentrator) [(Start, namelessCreated)]
       = Inr ([appID \<mapsto> newDepBundle], emptyConcentrator\<lparr>Errors := [NoClusterName]\<rparr>)
   \<and> emitted (emptyConcentrator\<lparr>Errors := [NoClusterName]\<rparr>) appID = 0
   \<and> concentrate PutbackManifests emptyConcentrator [(Start, namelessCreated)] [appID]
       = Inl (Panic ''nil pointer dereference'')"
proof -
  have k: "eventKey (Start, namelessCreated) = Inr appID"
    by (simp add: namelessCreated_def Deployable_ManifestID_def Deployment_ManifestID_def appOnA_def appID_def)
  have a: "add newDepBundle namelessCreated = (newDepBundle, Some NoClusterName)"
    by (simp add: add_def newDepBundle_def priorOf_def postOf_def namelessCreated_def pairCluster_def)
  have c: "consume PutbackManifests (Map.empty, emptyConcentrator) [(Start, namelessCreated)]
       = Inr ([appID \<mapsto> newDepBundle], emptyConcentrator\<lparr>Errors := [NoClusterName]\<rparr>)"
    by (simp add: k addPair_def a emptyConcentrator_def newDiffConcentrator_def del: eventKey.simps)
  have e: "emitted (emptyConcentrator\<lparr>Errors := [NoClusterName]\<rparr>) appID = 0"
    by (simp add: emitted_def emptyConcentrator_def newDiffConcentrator_def)
  have m: "manifestPair PutbackManifests d b newDepBundle
       = (newDepBundle\<lparr>consumed := True\<rparr>, Inl (Panic ''nil pointer dereference''))" for d b
    by (simp add: manifestPair_def newDepBundle_def NewDeployments_def PutbackManifests_def Only_def)
  have f: "flush PutbackManifests ([appID \<mapsto> newDepBundle], emptyConcentrator\<lparr>Errors := [NoClusterName]\<rparr>) [appID]
       = Inl (Panic ''nil pointer dereference'')"
    by (simp add: resolve_def m) (simp add: newDepBundle_def)
  show ?thesis using k c e f by (simp add: concentrate_def)
qed

text \<open>
  Claim C1, amended. Let every event be valid: it carries the side its channel is keyed
  by, and its sides belong to one application and name one non-empty cluster. Then the
  select loop of concentrate, in whatever order the events arrive, ends without panic
  with one bundle for each application that received an event; at that point the number
  of values sent for an application on the four output channels together is 1 if its
  bundle's cluster set has as many members as there are configured clusters, and 0
  otherwise; and after the final loop, in whatever order it visits the bundles, that
  number is exactly 1 for every application that received an event and 0 for any other.
  As this holds for every list of events, hence for every prefix of a run, the one
  value for an application is sent in the step in which its cluster set reaches the
  configured size, or else in the final loop, and never a second time.
\<close>

theorem concentrate_one_event_per_manifest:
  assumes "\<forall>ev\<in>set evs. validEvent ev"
  shows "\<exists>st. consume PutbackManifests (Map.empty, newDiffConcentrator defs baseMs) evs = Inr st
          \<and> dom (fst st) = {m. Inr m \<in> eventKey ` set evs}
          \<and> emitted (snd st) mid =
              (case fst st mid of
                 None \<Rightarrow> 0
               | Some b \<Rightarrow> if length (clusters b) = length (Clusters defs) then 1 else 0)
          \<and> (\<forall>mids. set mids = dom (fst st) \<longrightarrow>
                (\<exists>st'. concentrate PutbackManifests (newDiffConcentrator defs baseMs) evs mids = Inr st'
                    \<and> emitted (snd st') mid = (if Inr mid \<in> eventKey ` set evs then 1 else 0)))"
proof -
  let ?st0 = "(Map.empty, newDiffConcentrator defs baseMs) :: collect \<times> DiffConcentrator"
  obtain st where s: "consume PutbackManifests ?st0 evs = Inr st"
    and i: "concInv st" and c: "countInv st" and d: "Defs (snd st) = Defs (snd ?st0)"
    and dm: "dom (fst st) = dom (fst ?st0) \<union> {m. Inr m \<in> eventKey ` set evs}"
    using consume_valid[OF assms concInv_init countInv_init] by blast
  obtain coll con where st: "st = (coll, con)" by (cases st)
  have N: "Clusters (Defs con) = Clusters defs" using d st by (simp add: newDiffConcentrator_def)
  have dm': "dom (fst st) = {m. Inr m \<in> eventKey ` set evs}" using dm by simp
  have before_flush: "emitted (snd st) mid =
      (case fst st mid of None \<Rightarrow> 0
       | Some b \<Rightarrow> if length (clusters b) = length (Clusters defs) then 1 else 0)"
  proof (cases "coll mid")
    case None
    then show ?thesis using concInv_None[OF i[unfolded st]] st by simp
  next
    case (Some b)
    then show ?thesis
      using concInv_Some[OF i[unfolded st] Some] countInv_Some[OF c[unfolded st] Some] st N by simp
  qed
  have after_flush: "\<forall>mids. set mids = dom (fst st) \<longrightarrow>
      (\<exists>st'. concentrate PutbackManifests (newDiffConcentrator defs baseMs) evs mids = Inr st'
          \<and> emitted (snd st') mid = (if Inr mid \<in> eventKey ` set evs then 1 else 0))"
  proof (intro allI impI)
    fix mids
    assume m: "set mids = dom (fst st)"
    obtain st' where f: "flush PutbackManifests st mids = Inr st'" and i': "concInv st'"
      and d': "dom (fst st') = dom (fst st)"
      and c': "\<forall>m b. fst st' m = Some b \<longrightarrow>
                  m \<in> set mids \<or> (\<exists>b0. fst st m = Some b0 \<and> consumed b0) \<longrightarrow> consumed b"
      using flush_inv[OF i] by blast
    obtain coll' con' where st': "st' = (coll', con')" by (cases st')
    have r: "concentrate PutbackManifests (newDiffConcentrator defs baseMs) evs mids = Inr st'"
      using s f by (simp add: concentrate_def)
    have "emitted (snd st') mid = (if Inr mid \<in> eventKey ` set evs then 1 else 0)"
    proof (cases "Inr mid \<in> eventKey ` set evs")
      case True
      then have "mid \<in> dom (fst st')" using d' dm' by simp
      then obtain b where b: "coll' mid = Some b" using st' by auto
      have "mid \<in> set mids" using m dm' True by simp
      then have "consumed b" using c' b st' by (metis fst_conv)
      then show ?thesis using concInv_Some[OF i'[unfolded st'] b] True st' by simp
    next
      case False
      then have "mid \<notin> dom (fst st')" using d' dm' by simp
      then have "coll' mid = None" using st' by auto
      then show ?thesis using concInv_None[OF i'[unfolded st']] False st' by simp
    qed
    then show "\<exists>st'. concentrate PutbackManifests (newDiffConcentrator defs baseMs) evs mids = Inr st'
          \<and> emitted (snd st') mid = (if Inr mid \<in> eventKey ` set evs then 1 else 0)"
      using r by blast
  qed
  show ?thesis using s dm' before_flush after_flush by blast
qed

theorem concentrate_one_event_per_manifest_witness:
  "validEvent (Start, createdOnA)
   \<and> \<not> isl (concentrate PutbackManifests (newDiffConcentrator twoClusters []) [(Start, createdOnA)] [appID])
   \<and> emitted (snd (projr (concentrate PutbackManifests (newDiffConcentrator twoClusters [])
                               [(Start, createdOnA)] [appID]))) appID = 1"
proof -
  have k: "eventKey (Start, createdOnA) = Inr appID"
    by (simp add: createdOnA_def Deployable_ManifestID_def Deployment_ManifestID_def appOnA_def appID_def)
  have v1: "validEvent (Start, createdOnA)"
    unfolding validEvent_def k
    by (simp add: validPair_def sideOK_def priorOf_def postOf_def createdOnA_def
        Deployment_ManifestID_def appOnA_def appID_def)
  then have v: "\<forall>ev\<in>set [(Start, createdOnA)]. validEvent ev" by simp
  from concentrate_one_event_per_manifest[OF v, of twoClusters "[]" appID]
  obtain st where "consume PutbackManifests (Map.empty, newDiffConcentrator twoClusters [])
        [(Start, createdOnA)] = Inr st"
    and dm: "dom (fst st) = {m. Inr m \<in> eventKey ` set [(Start, createdOnA)]}"
    and fl: "\<forall>mids. set mids = dom (fst st) \<longrightarrow>
                (\<exists>st'. concentrate PutbackManifests (newDiffConcentrator twoClusters []) [(Start, createdOnA)] mids = Inr st'
                    \<and> emitted (snd st') appID = (if Inr appID \<in> eventKey ` set [(Start, createdOnA)] then 1 else 0))"
    by (elim exE conjE)
  have "set [appID] = dom (fst st)" using dm k by auto
  then obtain st' where
    "concentrate PutbackManifests (newDiffConcentrator twoClusters []) [(Start, createdOnA)] [appID] = Inr st'"
    "emitted (snd st') appID = 1"
    using fl k by fastforce
  then show ?thesis using v1 by simp
qed

section \<open>Properties of the rectifier\<close>

text \<open>
  What rectifyModify does for a pair with both sides: a Scale call when the instance
  counts differ, then a Deploy call when the source versions differ. The resources take
  no part, since changesDep compares the prior resources with themselves.
\<close>

lemma rectifyModify_calls:
  "rectifyModify cn depID \<lparr>prior = Some pr, post = Some po\<rparr> sing =
     Inr (sing\<lparr>calls := calls sing
        @ (if NumInstances pr \<noteq> NumInstances po
           then [Scale (Cluster po) (computeRequestId cn po) (NumInstances po) ''rectified scaling'']
           else [])
        @ (if SousDeployment.SourceVersion pr \<noteq> SousDeployment.SourceVersion po
           then [Deploy (Cluster po) depID (computeRequestId cn pr) (ImageName sing po) (Resources po)]
           else [])\<rparr>)"
  by (simp add: rectifyModify_def changesReq_def changesDep_def send_def computeImageName_def
      SourceVersion_Equal_def Resources_Equal_def)

text \<open>
  Claim C3, at a modified pair whose sides differ in their resources only: the resource
  specification differs between prior and post, yet rectifyModifys makes no call at all,
  so no Deploy.
\<close>

theorem rectifyModifys_resources_only_no_deploy:
  "Resources smallDeployment \<noteq> Resources biggerDeployment
   \<and> NumInstances smallDeployment = NumInstances biggerDeployment
   \<and> rectifyModifys exampleCanonicalName [(''d1'', resourcesPair)] exampleClient = (exampleClient, None)
   \<and> filter isDeploy (calls exampleClient) = []"
proof -
  have "Resources smallDeployment \<noteq> Resources biggerDeployment"
    by (auto simp: smallDeployment_def biggerDeployment_def dest: map_upd_eqD1)
  moreover have "rectifyModifys exampleCanonicalName [(''d1'', resourcesPair)] exampleClient = (exampleClient, None)"
    by (simp add: resourcesPair_def rectifyModify_calls biggerDeployment_def)
  ultimately show ?thesis
    by (simp add: biggerDeployment_def exampleClient_def)
qed

lemma rectifyDeletes_calls:
  "rectifyDeletes cn ds sing =
     sing\<lparr>calls := calls sing
        @ map (\<lambda>d. Scale (Cluster d) (computeRequestId cn d) 0 ''scaling deleted manifest to zero'') ds\<rparr>"
  by (induction ds arbitrary: sing) (simp_all add: send_def)

text \<open>
  Claim C9, as stated, at the deleted deployment of the package's test: the rectifier
  does not issue exactly one DeleteRequest call for it.
\<close>

theorem rectifyDeletes_no_DeleteRequest:
  "length (filter isDeleteRequest
      (calls (rectifyDeletes exampleCanonicalName [deletedDeployment] exampleClient))) \<noteq> 1"
  by (simp add: exampleClient_def send_def)

text \<open>
  Claim C9, amended. For every deleted deployment the rectifier issues exactly one Scale
  call, for the deployment's cluster and request, with instance count 0 and the message
  "scaling deleted manifest to zero"; it issues no PostRequest, no Deploy and no
  DeleteRequest call.
\<close>

theorem rectifyDeletes_scales_to_zero:
  "calls (rectifyDeletes cn [d] sing) =
       calls sing @ [Scale (Cluster d) (computeRequestId cn d) 0 ''scaling deleted manifest to zero'']
   \<and> calls (rectifyDeletes cn (d # ds) sing) = calls (rectifyDeletes cn ds (send sing
       (Scale (Cluster d) (computeRequestId cn d) 0 ''scaling deleted manifest to zero'')))
   \<and> length (filter isScale (calls (rectifyDeletes cn ds sing)))
       = length (filter isScale (calls sing)) + length ds
   \<and> filter isPostRequest (calls (rectifyDeletes cn ds sing)) = filter isPostRequest (calls sing)
   \<and> filter isDeploy (calls (rectifyDeletes cn ds sing)) = filter isDeploy (calls sing)
   \<and> filter isDeleteRequest (calls (rectifyDeletes cn ds sing)) = filter isDeleteRequest (calls sing)"
  by (simp add: rectifyDeletes_calls send_def filter_map comp_def)

theorem rectifyDeletes_scales_to_zero_witness:
  "calls (rectifyDeletes exampleCanonicalName [deletedDeployment] exampleClient) =
     [Scale ''cluster'' ''reqid'' 0 ''scaling deleted manifest to zero'']"
  using rectifyDeletes_scales_to_zero[of exampleCanonicalName deletedDeployment exampleClient "[]"]
  by (simp add: exampleClient_def deletedDeployment_def computeRequestId_def exampleCanonicalName_def)

end
